theory Spec2Isabelle
  imports Main
begin

section \<open>Python strings\<close>

text \<open>
  A Python \<open>str\<close> is modelled as a \<open>string\<close>: a list of characters, one \<open>char\<close> per
  code point, for the code points below 256. \<open>len\<close> is \<open>length\<close>, \<open>c in s\<close> for a
  one-character \<open>c\<close> is \<open>c \<in> set s\<close>, \<open>+\<close> is \<open>@\<close>.
\<close>

definition bslash :: char where
  "bslash = CHR 0x5C"

definition dquote :: char where
  "dquote = CHR 0x22"

definition squote :: char where
  "squote = CHR 0x27"

definition is_upper :: "char \<Rightarrow> bool" where
  "is_upper c = (let n = (of_char c :: nat) in
     (65 \<le> n \<and> n \<le> 90) \<or> (192 \<le> n \<and> n \<le> 222 \<and> n \<noteq> 215))"

definition is_lower :: "char \<Rightarrow> bool" where
  "is_lower c = (let n = (of_char c :: nat) in
     (97 \<le> n \<and> n \<le> 122) \<or> (224 \<le> n \<and> n \<le> 254 \<and> n \<noteq> 247))"

text \<open>
  \<open>str.lower\<close> on one character: an upper-case letter (\<open>A\<close> to \<open>Z\<close>, and the
  Latin-1 capitals) moves up by 32, which sets bit 5; every other character stays.
\<close>

definition lower_char :: "char \<Rightarrow> char" where
  "lower_char c =
     (if is_upper c
      then (case c of Char b0 b1 b2 b3 b4 b5 b6 b7 \<Rightarrow> Char b0 b1 b2 b3 b4 True b6 b7)
      else c)"

text \<open>
  \<open>str.upper\<close> on one character: a small letter (\<open>a\<close> to \<open>z\<close>, and the Latin-1
  small letters from 224 to 254) moves down by 32. The three small letters whose
  capital is not one character below 256 (code points 181, 223 and 255) are left as
  they are; the program applies \<open>upper\<close> only to the format.
\<close>

definition upper_char :: "char \<Rightarrow> char" where
  "upper_char c =
     (if is_lower c
      then (case c of Char b0 b1 b2 b3 b4 b5 b6 b7 \<Rightarrow> Char b0 b1 b2 b3 b4 False b6 b7)
      else c)"

definition lower :: "string \<Rightarrow> string" where
  "lower s = map lower_char s"

definition upper :: "string \<Rightarrow> string" where
  "upper s = map upper_char s"

definition startswith :: "string \<Rightarrow> string \<Rightarrow> bool" where
  "startswith s pre = (take (length pre) s = pre)"

definition endswith :: "string \<Rightarrow> string \<Rightarrow> bool" where
  "endswith s suf = (length suf \<le> length s \<and> drop (length s - length suf) s = suf)"

text \<open>\<open>sub in s\<close> for strings: \<open>sub\<close> occurs in \<open>s\<close> as a contiguous run.\<close>

fun contains :: "string \<Rightarrow> string \<Rightarrow> bool" where
  "contains sub [] = (sub = [])"
| "contains sub (c # cs) = (startswith (c # cs) sub \<or> contains sub cs)"

text \<open>\<open>s.split(sep)\<close> for a one-character separator: always at least one piece.\<close>

fun split_on :: "char \<Rightarrow> string \<Rightarrow> string list" where
  "split_on sep [] = [[]]"
| "split_on sep (c # cs) =
     (if c = sep then [] # split_on sep cs
      else (case split_on sep cs of
              [] \<Rightarrow> [[c]]
            | w # ws \<Rightarrow> (c # w) # ws))"

text \<open>\<open>s.find(c, start)\<close>: the first index at or after \<open>start\<close> that holds \<open>c\<close>.\<close>

definition find_from :: "char \<Rightarrow> nat \<Rightarrow> string \<Rightarrow> nat option" where
  "find_from c start s =
     (let r = drop start s
      in if c \<in> set r then Some (start + length (takeWhile (\<lambda>x. x \<noteq> c) r)) else None)"

text \<open>\<open>sep.join(xs)\<close>.\<close>

fun join_str :: "string \<Rightarrow> string list \<Rightarrow> string" where
  "join_str sep [] = []"
| "join_str sep [x] = x"
| "join_str sep (x # y # ys) = x @ sep @ join_str sep (y # ys)"

text \<open>\<open>str(n)\<close> for a natural number, and \<open>s.zfill(k)\<close>-style padding with zeros.\<close>

definition digit_char :: "nat \<Rightarrow> char" where
  "digit_char d = ''0123456789'' ! (d mod 10)"

function decimal :: "nat \<Rightarrow> string" where
  "decimal n = (if n < 10 then [digit_char n] else decimal (n div 10) @ [digit_char (n mod 10)])"
  by pat_completeness auto
termination
  by (relation "measure (\<lambda>n. n)") auto

declare decimal.simps [simp del]

definition zero_pad :: "nat \<Rightarrow> string \<Rightarrow> string" where
  "zero_pad k s = replicate (k - length s) (CHR ''0'') @ s"

section \<open>Exceptions\<close>

text \<open>
  The exception classes the program raises, catches or can receive from its libraries;
  all of them derive from \<open>Exception\<close>. \<open>IOError\<close> is Python's alias of \<open>OSError\<close>.
  An exception value carries its class and \<open>str(e)\<close>.
\<close>

datatype exn_class =
    ValueError | UnicodeDecodeError | JSONDecodeError
  | ImportError | ModuleNotFoundError
  | RuntimeError | KeyError | TypeError
  | OSError | PermissionError
  | OtherException

datatype exn = Exn exn_class string

definition issubclass :: "exn_class \<Rightarrow> exn_class \<Rightarrow> bool" where
  "issubclass c d =
     (c = d
      \<or> (c = UnicodeDecodeError \<and> d = ValueError)
      \<or> (c = JSONDecodeError \<and> d = ValueError)
      \<or> (c = ModuleNotFoundError \<and> d = ImportError)
      \<or> (c = PermissionError \<and> d = OSError))"

fun isinstance :: "exn \<Rightarrow> exn_class \<Rightarrow> bool" where
  "isinstance (Exn c m) d = issubclass c d"

fun str_exn :: "exn \<Rightarrow> string" where
  "str_exn (Exn c m) = m"

section \<open>os.path and pathlib\<close>

text \<open>
  \<open>os.path\<close> is \<open>posixpath\<close> or \<open>ntpath\<close>, and \<open>Path\<close> is \<open>PosixPath\<close> or
  \<open>WindowsPath\<close>, by the operating system the process runs on.
\<close>

datatype flavour = Posix | Nt

text \<open>\<open>posixpath.splitroot\<close>: drive, root and the rest.\<close>

definition posix_splitroot :: "string \<Rightarrow> string \<times> string \<times> string" where
  "posix_splitroot p =
     (if take 1 p \<noteq> ''/'' then ([], [], p)
      else if take 1 (drop 1 p) \<noteq> ''/'' \<or> take 1 (drop 2 p) = ''/'' then ([], ''/'', drop 1 p)
      else ([], take 2 p, drop 2 p))"

text \<open>
  \<open>ntpath.splitroot\<close>: UNC and device drives (two leading separators), a rooted path
  without a drive, a drive letter with or without a root, or a relative path.
\<close>

definition nt_norm :: "string \<Rightarrow> string" where
  "nt_norm p = map (\<lambda>c. if c = CHR ''/'' then bslash else c) p"

definition unc_prefix :: string where
  "unc_prefix = [bslash, bslash, CHR ''?'', bslash, CHR ''U'', CHR ''N'', CHR ''C'', bslash]"

definition nt_splitroot :: "string \<Rightarrow> string \<times> string \<times> string" where
  "nt_splitroot p =
     (let normp = nt_norm p in
      if take 1 normp = [bslash] then
        (if take 1 (drop 1 normp) = [bslash] then
           (let start = (if upper (take 8 normp) = unc_prefix then 8 else 2) in
            case find_from bslash start normp of
              None \<Rightarrow> (p, [], [])
            | Some index \<Rightarrow>
                (case find_from bslash (index + 1) normp of
                   None \<Rightarrow> (p, [], [])
                 | Some index2 \<Rightarrow> (take index2 p, take 1 (drop index2 p), drop (index2 + 1) p)))
         else ([], take 1 p, drop 1 p))
      else if take 1 (drop 1 normp) = '':'' then
        (if take 1 (drop 2 normp) = [bslash] then (take 2 p, take 1 (drop 2 p), drop 3 p)
         else (take 2 p, [], drop 2 p))
      else ([], [], p))"

text \<open>
  \<open>os.path.basename\<close>. On POSIX: what follows the last \<open>/\<close>. On Windows: the drive
  and root are split off, and the tail is what follows the last \<open>/\<close> or backslash of
  the rest.
\<close>

definition tail_after :: "(char \<Rightarrow> bool) \<Rightarrow> string \<Rightarrow> string" where
  "tail_after is_sep p = rev (takeWhile (\<lambda>c. \<not> is_sep c) (rev p))"

fun basename :: "flavour \<Rightarrow> string \<Rightarrow> string" where
  "basename Posix p = tail_after (\<lambda>c. c = CHR ''/'') p"
| "basename Nt p =
     (case nt_splitroot p of
        (d, r, rest) \<Rightarrow> tail_after (\<lambda>c. c = CHR ''/'' \<or> c = bslash) rest)"

text \<open>
  A \<open>pathlib\<close> path in parsed form: drive, root, and the components below the anchor.
\<close>

record ppath =
  drv :: string
  root :: string
  parts :: "string list"

text \<open>\<open>Path(s)\<close>: empty and \<open>.\<close> components are dropped.\<close>

fun parse_path :: "flavour \<Rightarrow> string \<Rightarrow> ppath" where
  "parse_path Posix path =
     (if path = [] then \<lparr>drv = [], root = [], parts = []\<rparr>
      else (case posix_splitroot path of
              (d, r, rel) \<Rightarrow>
                \<lparr>drv = d, root = r,
                 parts = filter (\<lambda>x. x \<noteq> [] \<and> x \<noteq> ''.'') (split_on (CHR ''/'') rel)\<rparr>))"
| "parse_path Nt path =
     (if path = [] then \<lparr>drv = [], root = [], parts = []\<rparr>
      else (case nt_splitroot (nt_norm path) of
              (d, r, rel) \<Rightarrow>
                (let r' =
                   (if r = [] \<and> startswith d [bslash] \<and> \<not> endswith d [bslash]
                    then (let drv_parts = split_on bslash d in
                          if length drv_parts = 4 \<and> \<not> contains (drv_parts ! 2) ''?.''
                          then [bslash]
                          else if length drv_parts = 6 then [bslash]
                          else r)
                    else r)
                 in \<lparr>drv = d, root = r',
                     parts = filter (\<lambda>x. x \<noteq> [] \<and> x \<noteq> ''.'') (split_on bslash rel)\<rparr>)))"

text \<open>
  Joining two parsed paths: an anchored right operand replaces the left one (keeping the
  left drive when the right one has a root and no drive, and continuing below the left
  path when only the drives agree); a relative right operand is appended.
\<close>

definition join_parsed :: "ppath \<Rightarrow> ppath \<Rightarrow> ppath" where
  "join_parsed p q =
     (if root q \<noteq> [] then (if drv q = [] \<and> drv p \<noteq> [] then q\<lparr>drv := drv p\<rparr> else q)
      else if drv q \<noteq> [] then
        (if drv q = drv p \<or> lower (drv q) = lower (drv p)
         then p\<lparr>parts := parts p @ parts q\<rparr> else q)
      else p\<lparr>parts := parts p @ parts q\<rparr>)"

text \<open>\<open>p / s\<close> for a path \<open>p\<close> and a string \<open>s\<close>.\<close>

definition truediv :: "flavour \<Rightarrow> ppath \<Rightarrow> string \<Rightarrow> ppath" where
  "truediv fl p s = join_parsed p (parse_path fl s)"

text \<open>\<open>p.name\<close> and \<open>p.parent\<close>.\<close>

definition path_name :: "ppath \<Rightarrow> string" where
  "path_name p = (if parts p = [] then [] else last (parts p))"

definition path_parent :: "ppath \<Rightarrow> ppath" where
  "path_parent p = p\<lparr>parts := butlast (parts p)\<rparr>"

section \<open>Files, time and the libraries behind the program\<close>

text \<open>What \<open>json.load\<close> returns. A \<open>JObj\<close> holds the items of the loaded \<open>dict\<close>.\<close>

datatype json =
    JNull | JBool bool | JNum int | JStr string
  | JArr "json list" | JObj "(string \<times> json) list"

text \<open>
  The content of a file, by what \<open>json.load\<close> on the file opened in text mode does
  with it: it yields a value, rejects the text, or the text decoder rejects the bytes.
\<close>

datatype content = JsonText json | NotJson string | Undecodable string

type_synonym image = string

text \<open>
  The files, each kept under one path that stands for the file itself: the operating
  system resolves every name of a file to it (\<open>realpath\<close> below), so that two
  spellings of one file (relative and absolute, through a link or \<open>..\<close>, in another
  letter case where that does not matter) read and write the same content.
\<close>

type_synonym filesystem = "ppath \<rightharpoonup> content"

text \<open>
  \<open>Image.save(filepath, FORMAT)\<close> either writes the encoded image, or raises, and may
  then leave something at the path.
\<close>

datatype save_outcome = Saved content | SaveRaised exn "content option"

record datetime =
  year :: nat
  month :: nat
  day :: nat
  hour :: nat
  minute :: nat
  second :: nat
  microsecond :: nat

text \<open>
  What the program gets from outside itself during one operation: the operating
  system (which file a path names, \<open>realpath\<close>, and which \<open>open\<close> and \<open>mkdir\<close>
  fail), the clock and the C library behind \<open>strftime\<close>, Pillow and pywin32.
\<close>

record env =
  os_flavour :: flavour
  platform_system :: string
  home :: ppath
  realpath :: "ppath \<Rightarrow> ppath"
  open_error :: "ppath \<Rightarrow> exn option"
  open_w_error :: "ppath \<Rightarrow> exn option"
  mkdir_error :: "ppath \<Rightarrow> exn option"
  pillow_installed :: bool
  now :: datetime
  strftime_pads_year :: bool
  grab :: "exn + image"
  save :: "image \<Rightarrow> ppath \<Rightarrow> string \<Rightarrow> save_outcome"
  pywin32_installed :: bool
  windows :: "(nat \<times> bool \<times> string) list"
  print_window :: "nat \<Rightarrow> exn + image"

text \<open>
  \<open>t.strftime("%Y%m%d_%H%M%S")\<close>. Every field but the year has two digits. The year
  has four digits from 1000 on; below, the C library decides whether \<open>%Y\<close> pads it
  with zeros (glibc does not).
\<close>

definition strftime :: "bool \<Rightarrow> datetime \<Rightarrow> string" where
  "strftime pads_year t =
     (if pads_year then zero_pad 4 (decimal (year t)) else decimal (year t))
     @ zero_pad 2 (decimal (month t))
     @ zero_pad 2 (decimal (day t)) @ ''_''
     @ zero_pad 2 (decimal (hour t)) @ zero_pad 2 (decimal (minute t))
     @ zero_pad 2 (decimal (second t))"

text \<open>\<open>d[key]\<close> on a loaded JSON value: only a \<open>dict\<close> that has the key returns.\<close>

fun getitem :: "json \<Rightarrow> string \<Rightarrow> exn + json" where
  "getitem (JObj kvs) k =
     (case map_of kvs k of
        None \<Rightarrow> Inl (Exn KeyError ([squote] @ k @ [squote]))
      | Some v \<Rightarrow> Inr v)"
| "getitem (JArr xs) k = Inl (Exn TypeError ''list indices must be integers or slices, not str'')"
| "getitem (JStr s) k = Inl (Exn TypeError ''string indices must be integers'')"
| "getitem v k = Inl (Exn TypeError ''object is not subscriptable'')"

text \<open>\<open>Path(v)\<close> on a loaded JSON value: only a \<open>str\<close> is accepted.\<close>

fun Path_of :: "flavour \<Rightarrow> json \<Rightarrow> exn + ppath" where
  "Path_of fl (JStr s) = Inr (parse_path fl s)"
| "Path_of fl v = Inl (Exn TypeError ''expected str, bytes or os.PathLike object'')"

text \<open>\<open>open(path, 'r')\<close> followed by \<open>json.load\<close>.\<close>

definition open_and_load :: "env \<Rightarrow> ppath \<Rightarrow> content \<Rightarrow> exn + json" where
  "open_and_load ev p c =
     (case open_error ev p of
        Some e \<Rightarrow> Inl e
      | None \<Rightarrow>
          (case c of
             JsonText v \<Rightarrow> Inr v
           | NotJson t \<Rightarrow> Inl (Exn JSONDecodeError ''Expecting value'')
           | Undecodable b \<Rightarrow> Inl (Exn UnicodeDecodeError ''invalid start byte'')))"

section \<open>ScreenSnapConfig\<close>

definition VERSION :: string where
  "VERSION = ''1.0.0''"

definition DEFAULT_CONFIG_PATH :: "env \<Rightarrow> ppath" where
  "DEFAULT_CONFIG_PATH ev = truediv (os_flavour ev) (home ev) ''.screensnaprc''"

record ScreenSnapConfig =
  config_path :: ppath
  config :: json

definition default_config :: json where
  "default_config =
     JObj [(''version'', JStr VERSION), (''output_dir'', JStr ''.''),
           (''format'', JStr ''png''), (''include_timestamp'', JBool True)]"

definition load_config :: "env \<Rightarrow> filesystem \<Rightarrow> ppath \<Rightarrow> exn + json" where
  "load_config ev fs cp =
     (case fs (realpath ev cp) of
        None \<Rightarrow> Inr default_config
      | Some c \<Rightarrow>
          (case open_and_load ev cp c of
             Inr v \<Rightarrow> Inr v
           | Inl e \<Rightarrow>
               if isinstance e JSONDecodeError \<or> isinstance e OSError
               then Inr default_config
               else Inl e))"

definition ScreenSnapConfig_init :: "env \<Rightarrow> filesystem \<Rightarrow> ppath option \<Rightarrow> exn + ScreenSnapConfig" where
  "ScreenSnapConfig_init ev fs cfg_path =
     (let cp = (case cfg_path of Some p \<Rightarrow> p | None \<Rightarrow> DEFAULT_CONFIG_PATH ev)
      in case load_config ev fs cp of
           Inl e \<Rightarrow> Inl e
         | Inr c \<Rightarrow> Inr \<lparr>config_path = cp, config = c\<rparr>)"

text \<open>\<open>ScreenSnapConfig.save\<close>: the only writer of the preferences file.\<close>

definition save_config :: "env \<Rightarrow> ScreenSnapConfig \<Rightarrow> filesystem \<Rightarrow> exn option \<times> filesystem" where
  "save_config ev cm fs =
     (case open_w_error ev (config_path cm) of
        Some e \<Rightarrow> (Some e, fs)
      | None \<Rightarrow> (None, fs(realpath ev (config_path cm) \<mapsto> JsonText (config cm))))"

section \<open>ScreenSnap\<close>

record ScreenSnap =
  config_manager :: ScreenSnapConfig
  output_dir :: ppath
  format :: string
  system :: string

definition valid_formats :: "string list" where
  "valid_formats = [''png'', ''jpg'', ''jpeg'']"

text \<open>The format check of \<open>ScreenSnap.__init__\<close> (its lines 82 to 89).\<close>

definition check_format :: "string \<Rightarrow> exn + string" where
  "check_format fmt =
     (let format_lower = lower fmt
      in if format_lower \<notin> set valid_formats
         then Inl (Exn ValueError
                (''Invalid format '' @ [squote] @ fmt @ [squote] @ ''. Must be one of: ''
                 @ join_str '', '' valid_formats))
         else Inr format_lower)"

text \<open>
  The expression \<open>Path(output_dir or self.config_manager.config['output_dir'])\<close> of
  \<open>ScreenSnap.__init__\<close>: the preferences are read only when the argument is \<open>None\<close>
  or empty.
\<close>

definition resolve_output_dir :: "env \<Rightarrow> ScreenSnapConfig \<Rightarrow> string option \<Rightarrow> exn + ppath" where
  "resolve_output_dir ev cm out_dir =
     (let from_config =
        (case getitem (config cm) ''output_dir'' of
           Inl e \<Rightarrow> Inl e
         | Inr v \<Rightarrow> Path_of (os_flavour ev) v)
      in case out_dir of
           None \<Rightarrow> from_config
         | Some d \<Rightarrow> if d = [] then from_config else Inr (parse_path (os_flavour ev) d))"

text \<open>
  \<open>ScreenSnap.__init__\<close>: the preferences are loaded first, then the output directory
  is resolved, then the format is checked, the directory is created and Pillow is
  imported.
\<close>

definition ScreenSnap_init ::
  "env \<Rightarrow> filesystem \<Rightarrow> string option \<Rightarrow> string \<Rightarrow> ppath option \<Rightarrow> exn + ScreenSnap" where
  "ScreenSnap_init ev fs out_dir fmt cfg_path =
     (case ScreenSnapConfig_init ev fs cfg_path of
        Inl e \<Rightarrow> Inl e
      | Inr cm \<Rightarrow>
          (case resolve_output_dir ev cm out_dir of
             Inl e \<Rightarrow> Inl e
           | Inr od \<Rightarrow>
               (case check_format fmt of
                  Inl e \<Rightarrow> Inl e
                | Inr format_lower \<Rightarrow>
                    (case mkdir_error ev od of
                       Some e \<Rightarrow> Inl e
                     | None \<Rightarrow>
                         if pillow_installed ev
                         then Inr \<lparr>config_manager = cm, output_dir = od,
                                   format = format_lower, system = platform_system ev\<rparr>
                         else Inl (Exn ImportError
                                ''Pillow is required for ScreenSnap. Install it with: pip install pillow'')))))"

definition invalid_chars :: "char list" where
  "invalid_chars =
     [CHR ''<'', CHR ''>'', CHR '':'', dquote, CHR ''/'', bslash, CHR ''|'', CHR ''?'', CHR ''*'']"

text \<open>\<open>ScreenSnap._validate_filename\<close>.\<close>

definition validate_filename :: "flavour \<Rightarrow> string \<Rightarrow> exn + string" where
  "validate_filename fl filename =
     (if filename = [] then Inr filename
      else
        (let clean_filename = basename fl filename in
         if clean_filename \<noteq> filename
         then Inl (Exn ValueError
                (''Invalid filename (path components not allowed): '' @ filename))
         else if length clean_filename > 255
         then Inl (Exn ValueError
                (''Filename too long ('' @ decimal (length clean_filename) @ '' chars). Max: 255''))
         else
           (case find (\<lambda>char. char \<in> set clean_filename) invalid_chars of
              Some char \<Rightarrow>
                Inl (Exn ValueError
                  (''Invalid character in filename: '' @ [squote, char, squote]))
            | None \<Rightarrow> Inr clean_filename)))"

text \<open>
  \<open>ScreenSnap._generate_filename\<close>. \<open>if custom_name\<close> is false for \<open>None\<close> and for
  the empty string.
\<close>

definition generate_filename :: "env \<Rightarrow> ScreenSnap \<Rightarrow> string option \<Rightarrow> exn + ppath" where
  "generate_filename ev snap custom_name =
     (case (case custom_name of
              None \<Rightarrow> Inr (''screenshot_'' @ strftime (strftime_pads_year ev) (now ev) @ ''.'' @ format snap)
            | Some n \<Rightarrow>
                if n \<noteq> [] then
                  (case validate_filename (os_flavour ev) n of
                     Inl e \<Rightarrow> Inl e
                   | Inr filename \<Rightarrow>
                       Inr (if \<not> endswith filename (''.'' @ format snap)
                            then filename @ ''.'' @ format snap
                            else filename))
                else Inr (''screenshot_'' @ strftime (strftime_pads_year ev) (now ev) @ ''.'' @ format snap)) of
        Inl e \<Rightarrow> Inl e
      | Inr filename \<Rightarrow> Inr (truediv (os_flavour ev) (output_dir snap) filename))"

text \<open>
  The state the operations run in: the capturer object, the files, and what has been
  printed.
\<close>

record state =
  self :: ScreenSnap
  files :: filesystem
  stdout :: "string list"

definition print_line :: "string \<Rightarrow> state \<Rightarrow> state" where
  "print_line l s = s\<lparr>stdout := stdout s @ [l]\<rparr>"

text \<open>
  The two \<open>except\<close> clauses of \<open>capture\<close>: a \<open>ValueError\<close> is raised again as it is,
  any other exception becomes a \<open>RuntimeError\<close>.
\<close>

definition capture_except :: "exn \<Rightarrow> exn" where
  "capture_except e =
     (if isinstance e ValueError then e
      else Exn RuntimeError (''Failed to capture screenshot: '' @ str_exn e))"

text \<open>\<open>ScreenSnap.capture\<close>.\<close>

definition capture :: "env \<Rightarrow> string option \<Rightarrow> state \<Rightarrow> (exn + ppath) \<times> state" where
  "capture ev filename s =
     (case generate_filename ev (self s) filename of
        Inl e \<Rightarrow> (Inl (capture_except e), s)
      | Inr filepath \<Rightarrow>
          (case grab ev of
             Inl e \<Rightarrow> (Inl (capture_except e), s)
           | Inr screenshot \<Rightarrow>
               (case save ev screenshot filepath (upper (format (self s))) of
                  SaveRaised e left \<Rightarrow>
                    (Inl (capture_except e),
                     (case left of
                        None \<Rightarrow> s
                      | Some c \<Rightarrow> s\<lparr>files := (files s)(realpath ev filepath \<mapsto> c)\<rparr>))
                | Saved c \<Rightarrow> (Inr filepath, s\<lparr>files := (files s)(realpath ev filepath \<mapsto> c)\<rparr>))))"

text \<open>
  \<open>ScreenSnap._find_window\<close>: the first visible window whose title contains the
  substring, case-insensitively.
\<close>

definition find_window :: "env \<Rightarrow> string \<Rightarrow> nat option" where
  "find_window ev title_substring =
     (if \<not> pywin32_installed ev then None
      else
        (case filter (\<lambda>(hwnd, visible, window_title).
                        visible \<and> contains (lower title_substring) (lower window_title))
                (windows ev) of
           [] \<Rightarrow> None
         | (hwnd, visible, window_title) # rest \<Rightarrow> Some hwnd))"

text \<open>
  The two \<open>except\<close> clauses of \<open>capture_window\<close>: on an \<open>ImportError\<close> the full screen
  is captured instead, any other exception becomes a \<open>RuntimeError\<close>.
\<close>

definition window_except :: "env \<Rightarrow> string option \<Rightarrow> state \<Rightarrow> exn \<Rightarrow> (exn + ppath) \<times> state" where
  "window_except ev filename s e =
     (if isinstance e ImportError
      then capture ev filename
             (print_line ''Warning: pywin32 not installed, capturing full screen instead'' s)
      else (Inl (Exn RuntimeError (''Failed to capture window: '' @ str_exn e)), s))"

text \<open>
  \<open>ScreenSnap.capture_window\<close>. Off Windows the full screen is captured. On Windows
  everything runs inside the \<open>try\<close>: the imports, the search for the window (a missing
  window or a null handle falls back to \<open>capture\<close>, still inside the \<open>try\<close>), the
  capture of the window, the file name and the save.
\<close>

definition capture_window ::
  "env \<Rightarrow> string \<Rightarrow> string option \<Rightarrow> state \<Rightarrow> (exn + ppath) \<times> state" where
  "capture_window ev window_title filename s =
     (if system (self s) \<noteq> ''Windows'' then
        capture ev filename
          (print_line (''Warning: Window capture not supported on '' @ system (self s)
                       @ '', capturing full screen'') s)
      else if \<not> pywin32_installed ev then
        window_except ev filename s
          (Exn ModuleNotFoundError (''No module named '' @ [squote] @ ''win32gui'' @ [squote]))
      else
        (case (case find_window ev window_title of
                 None \<Rightarrow> None
               | Some h \<Rightarrow> if h = 0 then None else Some h) of
           None \<Rightarrow>
             (case capture ev filename
                     (print_line (''Warning: Window '' @ [squote] @ window_title @ [squote]
                                  @ '' not found, capturing full screen'') s) of
                (Inr p, s') \<Rightarrow> (Inr p, s')
              | (Inl e, s') \<Rightarrow> window_except ev filename s' e)
         | Some hwnd \<Rightarrow>
             (case print_window ev hwnd of
                Inl e \<Rightarrow> window_except ev filename s e
              | Inr screenshot \<Rightarrow>
                  (case generate_filename ev (self s) filename of
                     Inl e \<Rightarrow> window_except ev filename s e
                   | Inr filepath \<Rightarrow>
                       (case save ev screenshot filepath (upper (format (self s))) of
                          SaveRaised e left \<Rightarrow>
                            window_except ev filename
                              (case left of
                                 None \<Rightarrow> s
                               | Some c \<Rightarrow> s\<lparr>files := (files s)(realpath ev filepath \<mapsto> c)\<rparr>) e
                        | Saved c \<Rightarrow>
                            (Inr filepath, s\<lparr>files := (files s)(realpath ev filepath \<mapsto> c)\<rparr>))))))"

text \<open>A caller's sequence of capture operations, each in its own environment.\<close>

datatype call = Capture env "string option" | CaptureWindow env string "string option"

fun run_call :: "call \<Rightarrow> state \<Rightarrow> (exn + ppath) \<times> state" where
  "run_call (Capture ev filename) s = capture ev filename s"
| "run_call (CaptureWindow ev window_title filename) s = capture_window ev window_title filename s"

fun run_calls :: "call list \<Rightarrow> state \<Rightarrow> state" where
  "run_calls [] s = s"
| "run_calls (c # cs) s = run_calls cs (snd (run_call c s))"

section \<open>The wording of the specification\<close>

text \<open>
  The rejection rule as the specification words it: a name is rejected when it contains
  \<open>/\<close> or a backslash or a \<open>..\<close> segment, is longer than 255 characters, or contains
  one of the reserved characters. The segments of a name are its pieces between
  separators.
\<close>

definition reserved_chars :: "char list" where
  "reserved_chars = [CHR ''<'', CHR ''>'', CHR '':'', dquote, CHR ''|'', CHR ''?'', CHR ''*'']"

definition path_segments :: "string \<Rightarrow> string list" where
  "path_segments filename = split_on bslash (nt_norm filename)"

definition has_dotdot_segment :: "string \<Rightarrow> bool" where
  "has_dotdot_segment filename = (''..'' \<in> set (path_segments filename))"

definition spec_rejects :: "string \<Rightarrow> bool" where
  "spec_rejects filename =
     (CHR ''/'' \<in> set filename \<or> bslash \<in> set filename \<or> has_dotdot_segment filename
      \<or> length filename > 255
      \<or> (\<exists>c\<in>set reserved_chars. c \<in> set filename))"

text \<open>
  A format is accepted when it is, letter case aside, one of the three names: two strings
  are equal up to case when they have the same length and, position by position, the
  same character or the two cases of one ASCII letter.
\<close>

definition ascii_upper :: "char \<Rightarrow> bool" where
  "ascii_upper c = (65 \<le> (of_char c :: nat) \<and> (of_char c :: nat) \<le> 90)"

definition ci_char_eq :: "char \<Rightarrow> char \<Rightarrow> bool" where
  "ci_char_eq c d =
     (c = d
      \<or> (ascii_upper c \<and> (of_char d :: nat) = of_char c + 32)
      \<or> (ascii_upper d \<and> (of_char c :: nat) = of_char d + 32))"

definition ci_equal :: "string \<Rightarrow> string \<Rightarrow> bool" where
  "ci_equal a b = list_all2 ci_char_eq a b"

definition spec_accepts_format :: "string \<Rightarrow> bool" where
  "spec_accepts_format fmt = (\<exists>v\<in>set valid_formats. ci_equal fmt v)"

section \<open>A concrete setting\<close>

text \<open>
  Pillow's \<open>Image.save\<close> as this program meets it. It looks the format name up among
  its writers before it opens the file: \<open>PNG\<close> and \<open>JPEG\<close> have one, \<open>JPG\<close> has
  none, and the lookup raises \<open>KeyError\<close>. Then \<open>open\<close> refuses a path with a null
  character (\<open>ValueError\<close>) and a component of more than 255 characters
  (\<open>OSError\<close>). Otherwise the encoded image is written.
\<close>

definition pillow_formats :: "string list" where
  "pillow_formats = [''PNG'', ''JPEG'']"

definition pillow_save :: "image \<Rightarrow> ppath \<Rightarrow> string \<Rightarrow> save_outcome" where
  "pillow_save img p f =
     (if f \<notin> set pillow_formats
      then SaveRaised (Exn KeyError ([squote] @ f @ [squote])) None
      else if list_ex (\<lambda>x. CHR 0x00 \<in> set x) (parts p)
      then SaveRaised (Exn ValueError ''embedded null byte'') None
      else if list_ex (\<lambda>x. 255 < length x) (parts p)
      then SaveRaised (Exn OSError ''File name too long'') None
      else Saved (Undecodable img))"

text \<open>\<open>Path.mkdir\<close> refuses a path with a null character, with a \<open>ValueError\<close>.\<close>

definition posix_mkdir_error :: "ppath \<Rightarrow> exn option" where
  "posix_mkdir_error p =
     (if list_ex (\<lambda>x. CHR 0x00 \<in> set x) (parts p)
      then Some (Exn ValueError ''embedded null byte'')
      else None)"

text \<open>
  A machine without links: a relative path resolves against the working directory, an
  absolute path to itself.
\<close>

definition example_cwd :: ppath where
  "example_cwd = \<lparr>drv = [], root = ''/'', parts = [''home'', ''atlas'', ''work'']\<rparr>"

definition example_realpath :: "ppath \<Rightarrow> ppath" where
  "example_realpath p =
     (if root p = [] then example_cwd\<lparr>parts := parts example_cwd @ parts p\<rparr> else p)"

text \<open>
  A Linux machine with Pillow, no pywin32 and a working screen grab, at
  2026-01-18 09:05:07, and a capturer for PNG files in \<open>test_screenshots\<close>.
\<close>

definition example_time :: datetime where
  "example_time =
     \<lparr>year = 2026, month = 1, day = 18, hour = 9, minute = 5, second = 7,
      microsecond = 123456\<rparr>"

definition example_env :: env where
  "example_env =
     \<lparr>os_flavour = Posix, platform_system = ''Linux'',
      home = \<lparr>drv = [], root = ''/'', parts = [''home'', ''atlas'']\<rparr>,
      realpath = example_realpath,
      open_error = (\<lambda>p. None), open_w_error = (\<lambda>p. None),
      mkdir_error = posix_mkdir_error,
      pillow_installed = True, now = example_time, strftime_pads_year = False,
      grab = Inr ''pixels'', save = pillow_save,
      pywin32_installed = False, windows = [],
      print_window = (\<lambda>h. Inl (Exn OSError ''invalid window handle''))\<rparr>"

definition example_config_path :: ppath where
  "example_config_path = \<lparr>drv = [], root = ''/'', parts = [''home'', ''atlas'', ''.screensnaprc'']\<rparr>"

definition example_snap :: ScreenSnap where
  "example_snap =
     \<lparr>config_manager = \<lparr>config_path = example_config_path, config = default_config\<rparr>,
      output_dir = \<lparr>drv = [], root = [], parts = [''test_screenshots'']\<rparr>,
      format = ''png'', system = ''Linux''\<rparr>"

definition example_state :: state where
  "example_state = \<lparr>self = example_snap, files = Map.empty, stdout = []\<rparr>"

text \<open>The same capturer for the format \<open>jpg\<close>.\<close>

definition example_state_jpg :: state where
  "example_state_jpg = example_state\<lparr>self := example_snap\<lparr>format := ''jpg''\<rparr>\<rparr>"

text \<open>A Windows machine without pywin32.\<close>

definition windows_env :: env where
  "windows_env = example_env\<lparr>os_flavour := Nt, platform_system := ''Windows''\<rparr>"

definition windows_state :: state where
  "windows_state = example_state\<lparr>self := example_snap\<lparr>system := ''Windows''\<rparr>\<rparr>"

text \<open>
  A screen grab that raises a \<open>ValueError\<close>, and an \<open>open\<close> that, as Python's does,
  raises \<open>ValueError\<close> on a file name holding a null character.
\<close>

definition failing_grab_env :: env where
  "failing_grab_env = example_env\<lparr>grab := Inl (Exn ValueError ''bad display size'')\<rparr>"

definition nul_name :: string where
  "nul_name = ''shot'' @ [CHR 0x00]"

definition strict_open_env :: env where
  "strict_open_env =
     example_env\<lparr>save := (\<lambda>img p f.
        if CHR 0x00 \<in> set (path_name p)
        then SaveRaised (Exn ValueError ''embedded null byte'') None
        else Saved (Undecodable img))\<rparr>"

text \<open>An output directory whose name holds a null character.\<close>

definition nul_dir :: string where
  "nul_dir = ''shots'' @ [CHR 0x00]"

text \<open>
  Preferences files: one holding the JSON document \<open>{}\<close>, one holding bytes that are
  not text in the encoding of the machine.
\<close>

definition empty_object_files :: filesystem where
  "empty_object_files = [example_config_path \<mapsto> JsonText (JObj [])]"

definition undecodable_files :: filesystem where
  "undecodable_files = [example_config_path \<mapsto> Undecodable [CHR 0xFF, CHR 0xFE]]"

text \<open>
  A capturer whose preferences file is \<open>prefs.png\<close> in its output directory, given by
  its absolute path while the output directory is given relative to the working
  directory.
\<close>

definition aliased_config_path :: ppath where
  "aliased_config_path =
     \<lparr>drv = [], root = ''/'',
      parts = [''home'', ''atlas'', ''work'', ''test_screenshots'', ''prefs.png'']\<rparr>"

definition aliased_state :: state where
  "aliased_state =
     \<lparr>self = example_snap\<lparr>config_manager :=
               \<lparr>config_path = aliased_config_path, config = default_config\<rparr>\<rparr>,
      files = [aliased_config_path \<mapsto> JsonText default_config], stdout = []\<rparr>"

text \<open>
  The capturer of the example with its preferences file in place, and a caller's
  sequence of captures.
\<close>

definition prefs_state :: state where
  "prefs_state = example_state\<lparr>files := [example_config_path \<mapsto> JsonText default_config]\<rparr>"

definition example_calls :: "call list" where
  "example_calls =
     [Capture example_env (Some ''basic_v02.png''), CaptureWindow example_env ''Chrome'' None,
      Capture failing_grab_env None]"

section \<open>Predicates used in the proofs\<close>

definition is_digit :: "char \<Rightarrow> bool" where
  "is_digit c = (c \<in> set ''0123456789'')"

text \<open>A name is clean when it holds none of the characters \<open>invalid_chars\<close> lists.\<close>

definition clean :: "string \<Rightarrow> bool" where
  "clean p = (\<forall>c\<in>set invalid_chars. c \<notin> set p)"

text \<open>
  The paths a capture of this capturer can write: a file directly in the output
  directory whose name ends with the extension.
\<close>

definition capture_target :: "ScreenSnap \<Rightarrow> ppath \<Rightarrow> bool" where
  "capture_target snap q =
     (path_parent q = output_dir snap \<and> endswith (path_name q) (''.'' @ format snap))"

text \<open>The environment of a call.\<close>

fun call_env :: "call \<Rightarrow> env" where
  "call_env (Capture ev filename) = ev"
| "call_env (CaptureWindow ev window_title filename) = ev"

text \<open>A state change that keeps the capturer object and the file \<open>i\<close>.\<close>

definition untouched :: "ppath \<Rightarrow> state \<Rightarrow> state \<Rightarrow> bool" where
  "untouched i s s' = (self s' = self s \<and> files s' i = files s i)"

section \<open>File names: \<open>basename\<close>, validation and joining\<close>

lemma tail_after_id: "tail_after P p = p \<longleftrightarrow> (\<forall>c\<in>set p. \<not> P c)"
proof -
  have "tail_after P p = p \<longleftrightarrow> takeWhile (\<lambda>c. \<not> P c) (rev p) = rev p"
    unfolding tail_after_def by (metis rev_rev_ident)
  also have "\<dots> \<longleftrightarrow> (\<forall>c\<in>set (rev p). \<not> P c)"
    by (metis takeWhile_eq_all_conv)
  finally show ?thesis by simp
qed

lemma take1_eq: "take 1 p = [c] \<longleftrightarrow> (\<exists>r. p = c # r)"
  by (cases p) auto

lemma nt_norm_nosep: "CHR ''/'' \<notin> set p \<Longrightarrow> nt_norm p = p"
  unfolding nt_norm_def by (induction p) auto

lemma nt_splitroot_plain:
  assumes "CHR ''/'' \<notin> set p" "bslash \<notin> set p" "CHR '':'' \<notin> set p"
  shows "nt_splitroot p = ([], [], p)"
proof -
  have n: "nt_norm p = p" using assms(1) by (rule nt_norm_nosep)
  have a: "take 1 p \<noteq> [bslash]" using assms(2) by (cases p) auto
  have b: "take 1 (drop 1 p) \<noteq> '':''" using assms(3)
    by (cases p; cases "tl p") auto
  show ?thesis unfolding nt_splitroot_def Let_def n using a b by simp
qed

lemma basename_plain:
  assumes "CHR ''/'' \<notin> set p" "bslash \<notin> set p" "CHR '':'' \<notin> set p"
  shows "basename fl p = p"
proof (cases fl)
  case Posix
  then show ?thesis using assms(1) by (auto simp: tail_after_id)
next
  case Nt
  then show ?thesis using assms by (auto simp: nt_splitroot_plain tail_after_id)
qed

lemma find_invalid_None:
  "find (\<lambda>c. c \<in> set p) invalid_chars = None \<longleftrightarrow> (\<forall>c\<in>set invalid_chars. c \<notin> set p)"
  by (auto simp: find_None_iff)

lemma sep_in_invalid:
  "CHR ''/'' \<in> set invalid_chars" "bslash \<in> set invalid_chars" "CHR '':'' \<in> set invalid_chars"
  by (simp_all add: invalid_chars_def)

lemma validate_filename_ok:
  assumes "length p \<le> 255" "\<forall>c\<in>set invalid_chars. c \<notin> set p"
  shows "validate_filename fl p = Inr p"
proof (cases "p = []")
  case True then show ?thesis by (simp add: validate_filename_def)
next
  case False
  have b: "basename fl p = p" using assms(2) sep_in_invalid by (intro basename_plain) auto
  have f: "find (\<lambda>c. c \<in> set p) invalid_chars = None" using assms(2) by (simp add: find_invalid_None)
  show ?thesis using False assms(1) b f by (simp add: validate_filename_def)
qed

lemma validate_filename_cases:
  "(\<exists>m. validate_filename fl p = Inl (Exn ValueError m)) \<or> validate_filename fl p = Inr p"
  unfolding validate_filename_def Let_def by (auto split: option.splits)

lemma validate_filename_Inr:
  assumes "validate_filename fl p = Inr q"
  shows "q = p \<and> (p = [] \<or> (length p \<le> 255 \<and> (\<forall>c\<in>set invalid_chars. c \<notin> set p)))"
  using assms unfolding validate_filename_def Let_def
  by (auto split: if_splits option.splits simp: find_None_iff)

lemma split_on_none: "sep \<notin> set p \<Longrightarrow> split_on sep p = [p]"
  by (induction p) auto

lemma parse_path_plain:
  assumes "p \<noteq> []" "p \<noteq> ''.''"
    and "CHR ''/'' \<notin> set p" "bslash \<notin> set p" "CHR '':'' \<notin> set p"
  shows "parse_path fl p = \<lparr>drv = [], root = [], parts = [p]\<rparr>"
proof (cases fl)
  case Posix
  have "take 1 p \<noteq> ''/''" using assms(3) by (cases p) auto
  then have "posix_splitroot p = ([], [], p)" by (simp add: posix_splitroot_def)
  then show ?thesis using Posix assms by (simp add: split_on_none)
next
  case Nt
  have "nt_splitroot (nt_norm p) = ([], [], p)"
    using assms by (simp add: nt_norm_nosep nt_splitroot_plain)
  then show ?thesis using Nt assms by (simp add: split_on_none startswith_def)
qed

lemma truediv_plain:
  assumes "p \<noteq> []" "p \<noteq> ''.''"
    and "CHR ''/'' \<notin> set p" "bslash \<notin> set p" "CHR '':'' \<notin> set p"
  shows "truediv fl out p = out\<lparr>parts := parts out @ [p]\<rparr>"
  unfolding truediv_def parse_path_plain [OF assms] join_parsed_def by simp

lemma name_parent_append:
  "path_name (out\<lparr>parts := parts out @ [p]\<rparr>) = p"
  "path_parent (out\<lparr>parts := parts out @ [p]\<rparr>) = out"
  by (simp_all add: path_name_def path_parent_def)

lemma digits_length: "length ''0123456789'' = 10" by simp

lemma digit_char_in: "is_digit (digit_char d)"
proof -
  have "d mod 10 < length ''0123456789''" unfolding digits_length by simp
  then show ?thesis unfolding digit_char_def is_digit_def by (rule nth_mem)
qed

lemma decimal_digits: "\<forall>c\<in>set (decimal n). is_digit c"
proof (induction n rule: decimal.induct)
  case (1 n)
  show ?case
  proof (cases "n < 10")
    case True
    have "decimal n = [digit_char n]" using True by (subst decimal.simps) simp
    then show ?thesis using digit_char_in [of n] by simp
  next
    case False
    have "decimal n = decimal (n div 10) @ [digit_char (n mod 10)]"
      using False by (subst decimal.simps) simp
    moreover have "\<forall>c\<in>set (decimal (n div 10)). is_digit c" using 1 False by blast
    ultimately show ?thesis using digit_char_in [of "n mod 10"] by simp
  qed
qed

lemma zero_pad_digits: "\<forall>c\<in>set (zero_pad k (decimal n)). is_digit c"
proof -
  have "is_digit (CHR ''0'')" by (simp add: is_digit_def)
  then show ?thesis using decimal_digits [of n] unfolding zero_pad_def by auto
qed

lemma strftime_chars: "\<forall>c\<in>set (strftime pads t). is_digit c \<or> c = CHR ''_''"
  using zero_pad_digits decimal_digits unfolding strftime_def by auto

lemma is_digit_not_invalid: "is_digit c \<Longrightarrow> c \<notin> set invalid_chars"
  unfolding is_digit_def invalid_chars_def bslash_def dquote_def by auto

lemma valid_format_cases:
  "f \<in> set valid_formats \<Longrightarrow> f = ''png'' \<or> f = ''jpg'' \<or> f = ''jpeg''"
  by (simp add: valid_formats_def)

lemma dot_not_invalid: "CHR ''.'' \<notin> set invalid_chars"
  by (simp add: invalid_chars_def bslash_def dquote_def)

lemma valid_format_chars:
  assumes "f \<in> set valid_formats"
  shows "\<forall>c\<in>set f. c \<notin> set invalid_chars"
proof -
  have "\<forall>c\<in>set ''png''. c \<notin> set invalid_chars" by (simp add: invalid_chars_def bslash_def dquote_def)
  moreover have "\<forall>c\<in>set ''jpg''. c \<notin> set invalid_chars" by (simp add: invalid_chars_def bslash_def dquote_def)
  moreover have "\<forall>c\<in>set ''jpeg''. c \<notin> set invalid_chars" by (simp add: invalid_chars_def bslash_def dquote_def)
  ultimately show ?thesis using valid_format_cases [OF assms] by blast
qed

lemma valid_format_length:
  assumes "f \<in> set valid_formats"
  shows "3 \<le> length f"
proof -
  have "3 \<le> length ''png''" "3 \<le> length ''jpg''" "3 \<le> length ''jpeg''" by simp_all
  then show ?thesis using valid_format_cases [OF assms] by blast
qed

lemma endswith_append: "endswith (a @ b) b"
  by (simp add: endswith_def)

lemma endswith_length: "endswith a b \<Longrightarrow> length b \<le> length a"
  by (simp add: endswith_def)

lemma plain_of_clean:
  assumes "\<forall>c\<in>set invalid_chars. c \<notin> set p"
  shows "CHR ''/'' \<notin> set p" "bslash \<notin> set p" "CHR '':'' \<notin> set p"
  using assms sep_in_invalid by blast+

lemma truediv_clean:
  assumes "\<forall>c\<in>set invalid_chars. c \<notin> set p" "2 \<le> length p"
  shows "truediv fl out p = out\<lparr>parts := parts out @ [p]\<rparr>"
proof -
  have a: "p \<noteq> []" using assms(2) by auto
  have b: "p \<noteq> ''.''" using assms(2) by auto
  show ?thesis using a b plain_of_clean [OF assms(1)] by (rule truediv_plain)
qed

lemma clean_append: "clean a \<Longrightarrow> clean b \<Longrightarrow> clean (a @ b)"
  unfolding clean_def by auto

lemma clean_ext:
  assumes "f \<in> set valid_formats"
  shows "clean (''.'' @ f)" "2 \<le> length (''.'' @ f)"
proof -
  have "clean ''.''" unfolding clean_def using dot_not_invalid by auto
  moreover have "clean f" unfolding clean_def using valid_format_chars [OF assms] by blast
  ultimately show "clean (''.'' @ f)" by (rule clean_append)
  show "2 \<le> length (''.'' @ f)" using valid_format_length [OF assms] by simp
qed

lemma custom_name_clean:
  assumes n: "clean n" and e: "clean e" "2 \<le> length e"
  shows "clean (if \<not> endswith n e then n @ e else n)"
    and "2 \<le> length (if \<not> endswith n e then n @ e else n)"
    and "endswith (if \<not> endswith n e then n @ e else n) e"
proof -
  show "clean (if \<not> endswith n e then n @ e else n)"
    using n clean_append [OF n e(1)] by simp
  show "2 \<le> length (if \<not> endswith n e then n @ e else n)"
    using e(2) endswith_length [of n e] by auto
  show "endswith (if \<not> endswith n e then n @ e else n) e"
    using endswith_append [of n e] by simp
qed

lemma clean_strftime: "clean (strftime pads t)"
proof -
  have "CHR ''_'' \<notin> set invalid_chars" by (simp add: invalid_chars_def bslash_def dquote_def)
  then have "\<forall>c\<in>set (strftime pads t). c \<notin> set invalid_chars"
    using strftime_chars [of pads t] is_digit_not_invalid by blast
  then show ?thesis unfolding clean_def by blast
qed

lemma clean_prefix: "clean ''screenshot_''"
  unfolding clean_def by (simp add: invalid_chars_def bslash_def dquote_def)

lemma auto_name_clean:
  assumes e: "clean e" "2 \<le> length e"
  shows "clean (''screenshot_'' @ strftime pads t @ e)"
    and "2 \<le> length (''screenshot_'' @ strftime pads t @ e)"
    and "endswith (''screenshot_'' @ strftime pads t @ e) e"
proof -
  show "clean (''screenshot_'' @ strftime pads t @ e)"
    by (intro clean_append clean_prefix clean_strftime e(1))
  show "2 \<le> length (''screenshot_'' @ strftime pads t @ e)" using e(2) by simp
  have "endswith ((''screenshot_'' @ strftime pads t) @ e) e" by (rule endswith_append)
  then show "endswith (''screenshot_'' @ strftime pads t @ e) e" by (simp only: append_assoc)
qed

lemma truediv_clean':
  assumes "clean p" "2 \<le> length p"
  shows "truediv fl out p = out\<lparr>parts := parts out @ [p]\<rparr>"
  using assms truediv_clean unfolding clean_def by blast

lemma validate_filename_clean:
  assumes "validate_filename fl n = Inr n'" "n \<noteq> []"
  shows "n' = n" "clean n" "length n \<le> 255"
  using validate_filename_Inr [OF assms(1)] assms(2) unfolding clean_def by blast+

lemma generate_filename_custom:
  assumes f: "format snap \<in> set valid_formats" and n: "n \<noteq> []"
    and v: "validate_filename (os_flavour ev) n = Inr n'"
  shows "generate_filename ev snap (Some n) =
           Inr ((output_dir snap)\<lparr>parts := parts (output_dir snap)
                  @ [if \<not> endswith n (''.'' @ format snap) then n @ ''.'' @ format snap else n]\<rparr>)"
proof -
  let ?e = "''.'' @ format snap"
  let ?nm = "if \<not> endswith n ?e then n @ ?e else n"
  note c = validate_filename_clean [OF v n]
  have t: "truediv (os_flavour ev) (output_dir snap) ?nm
           = (output_dir snap)\<lparr>parts := parts (output_dir snap) @ [?nm]\<rparr>"
    by (rule truediv_clean' [OF custom_name_clean(1,2) [OF c(2) clean_ext [OF f]]])
  have "generate_filename ev snap (Some n) = Inr (truediv (os_flavour ev) (output_dir snap) ?nm)"
    unfolding generate_filename_def using n v c(1) by simp
  then show ?thesis using t by simp
qed

lemma generate_filename_auto:
  assumes f: "format snap \<in> set valid_formats" and c: "c = None \<or> c = Some []"
  shows "generate_filename ev snap c =
           Inr ((output_dir snap)\<lparr>parts := parts (output_dir snap)
                  @ [''screenshot_'' @ strftime (strftime_pads_year ev) (now ev) @ ''.'' @ format snap]\<rparr>)"
proof -
  let ?nm = "''screenshot_'' @ strftime (strftime_pads_year ev) (now ev) @ ''.'' @ format snap"
  have t: "truediv (os_flavour ev) (output_dir snap) ?nm
           = (output_dir snap)\<lparr>parts := parts (output_dir snap) @ [?nm]\<rparr>"
    by (rule truediv_clean' [OF auto_name_clean(1,2) [OF clean_ext [OF f]]])
  have "generate_filename ev snap c = Inr (truediv (os_flavour ev) (output_dir snap) ?nm)"
    unfolding generate_filename_def using c by auto
  then show ?thesis using t by simp
qed

lemma generate_filename_Inl:
  assumes "generate_filename ev snap c = Inl e"
  shows "\<exists>n. c = Some n \<and> n \<noteq> [] \<and> validate_filename (os_flavour ev) n = Inl e"
  using assms unfolding generate_filename_def
  by (auto split: option.splits if_splits sum.splits)

lemma generate_filename_Inr_custom:
  assumes "generate_filename ev snap (Some n) = Inr p" "n \<noteq> []"
  shows "\<exists>n'. validate_filename (os_flavour ev) n = Inr n'"
  using assms unfolding generate_filename_def by (auto split: sum.splits)

lemma generate_filename_shape:
  assumes f: "format snap \<in> set valid_formats" and g: "generate_filename ev snap c = Inr p"
  shows "\<exists>nm. p = (output_dir snap)\<lparr>parts := parts (output_dir snap) @ [nm]\<rparr>
            \<and> clean nm \<and> 2 \<le> length nm \<and> endswith nm (''.'' @ format snap)"
proof (cases "c = None \<or> c = Some []")
  case True
  let ?nm = "''screenshot_'' @ strftime (strftime_pads_year ev) (now ev) @ ''.'' @ format snap"
  have "p = (output_dir snap)\<lparr>parts := parts (output_dir snap) @ [?nm]\<rparr>"
    using generate_filename_auto [OF f True, of ev] g by simp
  then show ?thesis using auto_name_clean [OF clean_ext [OF f], of "strftime_pads_year ev" "now ev"] by blast
next
  case False
  then obtain n where c: "c = Some n" and n: "n \<noteq> []" by auto
  from generate_filename_Inr_custom [OF g [unfolded c] n]
  obtain n' where v: "validate_filename (os_flavour ev) n = Inr n'" ..
  let ?nm = "if \<not> endswith n (''.'' @ format snap) then n @ ''.'' @ format snap else n"
  have "p = (output_dir snap)\<lparr>parts := parts (output_dir snap) @ [?nm]\<rparr>"
    using generate_filename_custom [OF f n v] g c by simp
  then show ?thesis
    using custom_name_clean [OF validate_filename_clean(2) [OF v n] clean_ext [OF f]] by blast
qed

section \<open>Capture\<close>

lemma validate_filename_error:
  assumes "validate_filename fl n = Inl e"
  shows "\<exists>m. e = Exn ValueError m"
  using validate_filename_cases [of fl n] assms by auto

lemma capture_except_ValueError: "capture_except (Exn ValueError m) = Exn ValueError m"
  by (simp add: capture_except_def issubclass_def)

lemma capture_invalid:
  assumes "generate_filename ev (self s) fn = Inl e"
  shows "capture ev fn s = (Inl e, s)"
proof -
  from generate_filename_Inl [OF assms] validate_filename_error
  obtain m where "e = Exn ValueError m" by blast
  then show ?thesis using assms by (simp add: capture_def capture_except_ValueError)
qed

lemma capture_ok:
  assumes "generate_filename ev (self s) fn = Inr p" "grab ev = Inr img"
    and "save ev img p (upper (format (self s))) = Saved c"
  shows "capture ev fn s = (Inr p, s\<lparr>files := (files s)(realpath ev p \<mapsto> c)\<rparr>)"
  using assms by (simp add: capture_def)

lemma capture_Inr:
  assumes "fst (capture ev fn s) = Inr p"
  shows "generate_filename ev (self s) fn = Inr p"
  using assms unfolding capture_def
  by (auto split: sum.splits save_outcome.splits option.splits)

lemma capture_frame:
  "self (snd (capture ev fn s)) = self s \<and> stdout (snd (capture ev fn s)) = stdout s
   \<and> (files (snd (capture ev fn s)) = files s
      \<or> (\<exists>p c. generate_filename ev (self s) fn = Inr p
              \<and> files (snd (capture ev fn s)) = (files s)(realpath ev p \<mapsto> c)))"
  unfolding capture_def
  by (auto split: sum.splits save_outcome.splits option.splits)

lemma capture_print_line:
  "capture ev fn (print_line w s)
     = (fst (capture ev fn s), print_line w (snd (capture ev fn s)))"
  unfolding capture_def print_line_def
  by (auto split: sum.splits save_outcome.splits option.splits)

lemma capture_error_class:
  assumes "fst (capture ev fn s) = Inl e"
  shows "isinstance e ValueError \<or> isinstance e RuntimeError"
  using assms unfolding capture_def capture_except_def
  by (auto split: sum.splits save_outcome.splits option.splits if_splits simp: issubclass_def)

lemma generate_filename_total:
  assumes "validate_filename (os_flavour ev) n = Inr n'"
  shows "\<exists>p. generate_filename ev snap (Some n) = Inr p"
  using assms unfolding generate_filename_def by simp

lemma invalid_chars_split:
  "(\<exists>c\<in>set invalid_chars. c \<in> set p)
     \<longleftrightarrow> (CHR ''/'' \<in> set p \<or> bslash \<in> set p \<or> (\<exists>c\<in>set reserved_chars. c \<in> set p))"
  unfolding invalid_chars_def reserved_chars_def by auto

lemma validate_filename_rejects:
  assumes "n \<noteq> []"
  shows "(\<exists>m. validate_filename fl n = Inl (Exn ValueError m))
           \<longleftrightarrow> (length n > 255 \<or> (\<exists>c\<in>set invalid_chars. c \<in> set n))"
proof
  assume "\<exists>m. validate_filename fl n = Inl (Exn ValueError m)"
  then have "validate_filename fl n \<noteq> Inr n" by auto
  then show "length n > 255 \<or> (\<exists>c\<in>set invalid_chars. c \<in> set n)"
    using validate_filename_ok [of n fl] by fastforce
next
  assume b: "length n > 255 \<or> (\<exists>c\<in>set invalid_chars. c \<in> set n)"
  have "validate_filename fl n \<noteq> Inr n"
  proof
    assume "validate_filename fl n = Inr n"
    from validate_filename_Inr [OF this] assms b show False by auto
  qed
  then show "\<exists>m. validate_filename fl n = Inl (Exn ValueError m)"
    using validate_filename_cases [of fl n] by blast
qed



lemma example_formats:
  "format (self example_state) \<in> set valid_formats"
  "format (self example_state_jpg) \<in> set valid_formats"
  by (simp_all add: example_state_jpg_def example_state_def example_snap_def valid_formats_def)



section \<open>\<open>capture_window\<close>\<close>

lemma print_line_simps:
  "self (print_line w s) = self s" "files (print_line w s) = files s"
  "stdout (print_line w s) = stdout s @ [w]"
  by (simp_all add: print_line_def)

lemma capture_self:
  assumes "capture ev fn x = (r, s')"
  shows "self s' = self x"
  using capture_frame [of ev fn x] assms by simp

lemma capture_eq_Inr:
  assumes "capture ev fn x = (Inr p, s')"
  shows "generate_filename ev (self x) fn = Inr p"
  using capture_Inr [of ev fn x p] assms by simp

lemma window_except_Inr:
  assumes "fst (window_except ev fn s e) = Inr p"
  shows "generate_filename ev (self s) fn = Inr p"
proof (cases "isinstance e ImportError")
  case True
  then have "fst (capture ev fn (print_line
       ''Warning: pywin32 not installed, capturing full screen instead'' s)) = Inr p"
    using assms by (simp add: window_except_def)
  from capture_Inr [OF this] show ?thesis by (simp add: print_line_simps)
next
  case False
  then show ?thesis using assms by (simp add: window_except_def)
qed

lemma capture_window_Inr:
  assumes a: "fst (capture_window ev window_title fn s) = Inr p"
  shows "generate_filename ev (self s) fn = Inr p"
proof (cases "system (self s) \<noteq> ''Windows''")
  case True
  then have "fst (capture ev fn (print_line (''Warning: Window capture not supported on ''
       @ system (self s) @ '', capturing full screen'') s)) = Inr p"
    using a by (simp add: capture_window_def)
  from capture_Inr [OF this] show ?thesis by (simp add: print_line_simps)
next
  case win: False
  show ?thesis
  proof (cases "pywin32_installed ev")
    case False
    then have "fst (window_except ev fn s (Exn ModuleNotFoundError
        (''No module named '' @ [squote] @ ''win32gui'' @ [squote]))) = Inr p"
      using a win by (simp add: capture_window_def)
    then show ?thesis by (rule window_except_Inr)
  next
    case True
    let ?h = "case find_window ev window_title of None \<Rightarrow> None
               | Some h \<Rightarrow> if h = 0 then None else Some h"
    show ?thesis
    proof (cases ?h)
      case None
      let ?s1 = "print_line (''Warning: Window '' @ [squote] @ window_title @ [squote]
                                  @ '' not found, capturing full screen'') s"
      obtain r s' where c: "capture ev fn ?s1 = (r, s')" by (cases "capture ev fn ?s1")
      have s': "self s' = self s" using capture_self [OF c] by (simp add: print_line_simps)
      show ?thesis
      proof (cases r)
        case (Inr q)
        then have "q = p" using a win True None c by (simp add: capture_window_def)
        then show ?thesis using capture_eq_Inr [of ev fn ?s1 q s'] c Inr
          by (simp add: print_line_simps)
      next
        case (Inl e)
        then have "fst (window_except ev fn s' e) = Inr p"
          using a win True None c by (simp add: capture_window_def)
        from window_except_Inr [OF this] show ?thesis using s' by simp
      qed
    next
      case (Some hwnd)
      show ?thesis
      proof (cases "print_window ev hwnd")
        case (Inl e)
        then have "fst (window_except ev fn s e) = Inr p"
          using a win True Some by (simp add: capture_window_def)
        then show ?thesis by (rule window_except_Inr)
      next
        case img: (Inr screenshot)
        show ?thesis
        proof (cases "generate_filename ev (self s) fn")
          case (Inl e)
          then have "fst (window_except ev fn s e) = Inr p"
            using a win True Some img by (simp add: capture_window_def)
          from window_except_Inr [OF this] show ?thesis .
        next
          case gp: (Inr filepath)
          show ?thesis
          proof (cases "save ev screenshot filepath (upper (format (self s)))")
            case (Saved c)
            then have "filepath = p"
              using a win True Some img gp by (simp add: capture_window_def)
            then show ?thesis using gp by simp
          next
            case (SaveRaised e left)
            let ?s2 = "case left of None \<Rightarrow> s
                       | Some c \<Rightarrow> s\<lparr>files := (files s)(realpath ev filepath \<mapsto> c)\<rparr>"
            have "fst (window_except ev fn ?s2 e) = Inr p"
              using a win True Some img gp SaveRaised by (simp add: capture_window_def)
            from window_except_Inr [OF this] show ?thesis by (simp split: option.splits)
          qed
        qed
      qed
    qed
  qed
qed

lemma clean_basename: "clean p \<Longrightarrow> basename fl p = p"
  using plain_of_clean [of p] unfolding clean_def by (intro basename_plain) blast+

lemma example_capture:
  "fst (capture example_env (Some ''basic_v02.png'') example_state)
     = Inr \<lparr>drv = [], root = [], parts = [''test_screenshots'', ''basic_v02.png'']\<rparr>"
  by (simp add: capture_def generate_filename_def validate_filename_def example_env_def
      example_state_def example_snap_def tail_after_def invalid_chars_def bslash_def dquote_def
      endswith_def truediv_def posix_splitroot_def join_parsed_def upper_def upper_char_def
      is_lower_def pillow_save_def pillow_formats_def)

lemma window_except_ImportError:
  assumes "isinstance e ImportError"
  shows "window_except ev fn s e
           = capture ev fn (print_line ''Warning: pywin32 not installed, capturing full screen instead'' s)"
  using assms by (simp add: window_except_def)

lemma capture_window_fallback:
  assumes "system (self s) \<noteq> ''Windows'' \<or> \<not> pywin32_installed ev"
  shows "\<exists>w. startswith w ''Warning: ''
           \<and> capture_window ev window_title filename s = capture ev filename (print_line w s)"
proof (cases "system (self s) \<noteq> ''Windows''")
  case True
  let ?w = "''Warning: Window capture not supported on '' @ system (self s)
              @ '', capturing full screen''"
  have "startswith ?w ''Warning: ''" by (simp add: startswith_def)
  moreover have "capture_window ev window_title filename s = capture ev filename (print_line ?w s)"
    using True by (simp add: capture_window_def)
  ultimately show ?thesis by blast
next
  case False
  then have np: "\<not> pywin32_installed ev" using assms by simp
  let ?w = "''Warning: pywin32 not installed, capturing full screen instead''"
  have i: "isinstance (Exn ModuleNotFoundError
             (''No module named '' @ [squote] @ ''win32gui'' @ [squote])) ImportError"
    by (simp add: issubclass_def)
  have "startswith ?w ''Warning: ''" by (simp add: startswith_def)
  moreover have "capture_window ev window_title filename s = capture ev filename (print_line ?w s)"
    using False np window_except_ImportError [OF i] by (simp add: capture_window_def)
  ultimately show ?thesis by blast
qed

section \<open>The format check and the constructor\<close>

lemma lower_char_p: "lower_char c = CHR ''p'' \<longleftrightarrow> ci_char_eq c (CHR ''p'')"
  by (cases c) (simp add: lower_char_def is_upper_def ci_char_eq_def ascii_upper_def)

lemma lower_char_n: "lower_char c = CHR ''n'' \<longleftrightarrow> ci_char_eq c (CHR ''n'')"
  by (cases c) (simp add: lower_char_def is_upper_def ci_char_eq_def ascii_upper_def)

lemma lower_char_g: "lower_char c = CHR ''g'' \<longleftrightarrow> ci_char_eq c (CHR ''g'')"
  by (cases c) (simp add: lower_char_def is_upper_def ci_char_eq_def ascii_upper_def)

lemma lower_char_j: "lower_char c = CHR ''j'' \<longleftrightarrow> ci_char_eq c (CHR ''j'')"
  by (cases c) (simp add: lower_char_def is_upper_def ci_char_eq_def ascii_upper_def)

lemma lower_char_e: "lower_char c = CHR ''e'' \<longleftrightarrow> ci_char_eq c (CHR ''e'')"
  by (cases c) (simp add: lower_char_def is_upper_def ci_char_eq_def ascii_upper_def)

lemma lower_eq3:
  "lower s = [a, b, c]
     \<longleftrightarrow> (\<exists>x y z. s = [x, y, z] \<and> lower_char x = a \<and> lower_char y = b \<and> lower_char z = c)"
  unfolding lower_def by (auto simp: map_eq_Cons_conv)

lemma lower_eq4:
  "lower s = [a, b, c, d]
     \<longleftrightarrow> (\<exists>x y z u. s = [x, y, z, u] \<and> lower_char x = a \<and> lower_char y = b
                   \<and> lower_char z = c \<and> lower_char u = d)"
  unfolding lower_def by (auto simp: map_eq_Cons_conv)

lemma ci_equal3:
  "ci_equal s [a, b, c]
     \<longleftrightarrow> (\<exists>x y z. s = [x, y, z] \<and> ci_char_eq x a \<and> ci_char_eq y b \<and> ci_char_eq z c)"
  unfolding ci_equal_def by (auto simp: list_all2_Cons2)

lemma ci_equal4:
  "ci_equal s [a, b, c, d]
     \<longleftrightarrow> (\<exists>x y z u. s = [x, y, z, u] \<and> ci_char_eq x a \<and> ci_char_eq y b
                   \<and> ci_char_eq z c \<and> ci_char_eq u d)"
  unfolding ci_equal_def by (auto simp: list_all2_Cons2)

lemma lower_png: "lower s = ''png'' \<longleftrightarrow> ci_equal s ''png''"
  unfolding lower_eq3 ci_equal3 lower_char_p lower_char_n lower_char_g ..

lemma lower_jpg: "lower s = ''jpg'' \<longleftrightarrow> ci_equal s ''jpg''"
  unfolding lower_eq3 ci_equal3 lower_char_p lower_char_j lower_char_g ..

lemma lower_jpeg: "lower s = ''jpeg'' \<longleftrightarrow> ci_equal s ''jpeg''"
  unfolding lower_eq4 ci_equal4 lower_char_p lower_char_j lower_char_g lower_char_e ..

lemma lower_in_valid_formats:
  "lower fmt \<in> set valid_formats \<longleftrightarrow> spec_accepts_format fmt"
  unfolding spec_accepts_format_def valid_formats_def
  using lower_png [of fmt] lower_jpg [of fmt] lower_jpeg [of fmt] by simp

lemma join_valid_formats: "join_str '', '' valid_formats = ''png, jpg, jpeg''"
  by (simp add: valid_formats_def)

lemma check_format_rejects:
  assumes "\<not> spec_accepts_format fmt"
  shows "check_format fmt = Inl (Exn ValueError
           (''Invalid format '' @ [squote] @ fmt @ [squote] @ ''. Must be one of: png, jpg, jpeg''))"
  using assms unfolding check_format_def Let_def lower_in_valid_formats join_valid_formats
  by simp

lemma check_format_accepts:
  assumes "spec_accepts_format fmt"
  shows "check_format fmt = Inr (lower fmt)"
  using assms unfolding check_format_def Let_def lower_in_valid_formats by simp

lemma example_config_loaded:
  "ScreenSnapConfig_init example_env Map.empty None
     = Inr \<lparr>config_path = example_config_path, config = default_config\<rparr>"
  by (simp add: ScreenSnapConfig_init_def load_config_def DEFAULT_CONFIG_PATH_def
      example_env_def example_config_path_def truediv_def posix_splitroot_def join_parsed_def)

lemma example_output_dir:
  "resolve_output_dir example_env \<lparr>config_path = example_config_path, config = default_config\<rparr>
     (Some ''test_screenshots'') = Inr \<lparr>drv = [], root = [], parts = [''test_screenshots'']\<rparr>"
  by (simp add: resolve_output_dir_def example_env_def posix_splitroot_def)

lemma example_accepts: "\<not> spec_accepts_format ''invalid''" "spec_accepts_format ''PNG''"
  by (simp_all add: spec_accepts_format_def valid_formats_def ci_equal_def ci_char_eq_def
      ascii_upper_def)

text \<open>
  Every capturer the constructor returns has one of the three formats; the theorems
  below about such capturers assume just that.
\<close>

lemma ScreenSnap_init_format:
  assumes "ScreenSnap_init ev fs out_dir fmt cfg_path = Inr snap"
  shows "format snap \<in> set valid_formats"
  using assms unfolding ScreenSnap_init_def check_format_def Let_def
  by (auto split: sum.splits option.splits if_splits)

text \<open>
  When the preferences file is absent, cannot be opened, or is not JSON, the defaults
  are used.
\<close>

lemma load_config_defaults:
  "fs (realpath ev cp) = None \<Longrightarrow> load_config ev fs cp = Inr default_config"
  "fs (realpath ev cp) = Some c \<Longrightarrow> open_error ev cp = Some e \<Longrightarrow> isinstance e OSError
     \<Longrightarrow> load_config ev fs cp = Inr default_config"
  "fs (realpath ev cp) = Some (NotJson t) \<Longrightarrow> open_error ev cp = None
     \<Longrightarrow> load_config ev fs cp = Inr default_config"
  by (simp_all add: load_config_def open_and_load_def issubclass_def)

text \<open>An error of the screen grab that is not a \<open>ValueError\<close> is wrapped.\<close>

lemma capture_wraps_other_errors:
  assumes "generate_filename ev (self s) fn = Inr p" "grab ev = Inl e" "\<not> isinstance e ValueError"
  shows "capture ev fn s
           = (Inl (Exn RuntimeError (''Failed to capture screenshot: '' @ str_exn e)), s)"
  using assms by (simp add: capture_def capture_except_def)

section \<open>What a capture leaves untouched\<close>

lemma untouched_refl: "untouched i s s"
  by (simp add: untouched_def)

lemma untouched_trans: "untouched i s s' \<Longrightarrow> untouched i s' s'' \<Longrightarrow> untouched i s s''"
  by (simp add: untouched_def)

lemma untouched_print_line: "untouched i s (print_line w s)"
  by (simp add: untouched_def print_line_simps)

lemma generated_is_target:
  assumes "format snap \<in> set valid_formats" "generate_filename ev snap c = Inr p"
  shows "capture_target snap p"
proof -
  from generate_filename_shape [OF assms] obtain nm where
    p: "p = (output_dir snap)\<lparr>parts := parts (output_dir snap) @ [nm]\<rparr>"
    and e: "endswith nm (''.'' @ format snap)" by blast
  show ?thesis unfolding capture_target_def p name_parent_append using e by simp
qed

lemma untouched_write:
  assumes "format (self s) \<in> set valid_formats" "generate_filename ev (self s) c = Inr p"
    and "\<forall>q. capture_target (self s) q \<longrightarrow> realpath ev q \<noteq> i"
  shows "untouched i s (s\<lparr>files := (files s)(realpath ev p \<mapsto> x)\<rparr>)"
proof -
  have "realpath ev p \<noteq> i" using generated_is_target [OF assms(1,2)] assms(3) by blast
  then show ?thesis by (simp add: untouched_def)
qed

lemma untouched_left:
  assumes "format (self s) \<in> set valid_formats" "generate_filename ev (self s) c = Inr p"
    and "\<forall>q. capture_target (self s) q \<longrightarrow> realpath ev q \<noteq> i"
  shows "untouched i s
           (case left of None \<Rightarrow> s | Some x \<Rightarrow> s\<lparr>files := (files s)(realpath ev p \<mapsto> x)\<rparr>)"
  using untouched_write [OF assms] untouched_refl by (cases left) simp_all

lemma capture_untouched:
  assumes f: "format (self s) \<in> set valid_formats"
    and sh: "\<forall>q. capture_target (self s) q \<longrightarrow> realpath ev q \<noteq> i"
  shows "untouched i s (snd (capture ev fn s))"
proof -
  note fr = capture_frame [of ev fn s]
  show ?thesis
  proof (cases "files (snd (capture ev fn s)) = files s")
    case True
    then show ?thesis using fr by (simp add: untouched_def)
  next
    case False
    then obtain p c where g: "generate_filename ev (self s) fn = Inr p"
      and w: "files (snd (capture ev fn s)) = (files s)(realpath ev p \<mapsto> c)" using fr by blast
    have "realpath ev p \<noteq> i" using generated_is_target [OF f g] sh by blast
    then show ?thesis using fr w by (simp add: untouched_def)
  qed
qed

lemma capture_untouched_from:
  assumes f: "format (self s) \<in> set valid_formats"
    and sh: "\<forall>q. capture_target (self s) q \<longrightarrow> realpath ev q \<noteq> i"
    and u: "untouched i s s1"
  shows "untouched i s (snd (capture ev fn s1))"
proof -
  have e: "self s1 = self s" using u by (simp add: untouched_def)
  have "untouched i s1 (snd (capture ev fn s1))"
    using capture_untouched [of s1 ev i fn] f sh unfolding e by simp
  with u show ?thesis by (rule untouched_trans)
qed

lemma window_except_untouched:
  assumes f: "format (self s) \<in> set valid_formats"
    and sh: "\<forall>q. capture_target (self s) q \<longrightarrow> realpath ev q \<noteq> i"
    and u: "untouched i s s1"
  shows "untouched i s (snd (window_except ev fn s1 e))"
proof (cases "isinstance e ImportError")
  case True
  have "untouched i s (print_line
      ''Warning: pywin32 not installed, capturing full screen instead'' s1)"
    using u untouched_print_line by (rule untouched_trans)
  from capture_untouched_from [OF f sh this] show ?thesis
    using True by (simp add: window_except_def)
next
  case False
  then show ?thesis using u by (simp add: window_except_def)
qed

lemma capture_window_untouched:
  assumes f: "format (self s) \<in> set valid_formats"
    and sh: "\<forall>q. capture_target (self s) q \<longrightarrow> realpath ev q \<noteq> i"
  shows "untouched i s (snd (capture_window ev window_title fn s))"
proof (cases "system (self s) \<noteq> ''Windows''")
  case True
  from capture_untouched_from [OF f sh untouched_print_line] show ?thesis
    using True by (simp add: capture_window_def)
next
  case win: False
  show ?thesis
  proof (cases "pywin32_installed ev")
    case False
    from window_except_untouched [OF f sh untouched_refl] show ?thesis
      using win False by (simp add: capture_window_def)
  next
    case True
    let ?h = "case find_window ev window_title of None \<Rightarrow> None
               | Some h \<Rightarrow> if h = 0 then None else Some h"
    show ?thesis
    proof (cases ?h)
      case None
      let ?s1 = "print_line (''Warning: Window '' @ [squote] @ window_title @ [squote]
                                  @ '' not found, capturing full screen'') s"
      obtain r s' where c: "capture ev fn ?s1 = (r, s')" by (cases "capture ev fn ?s1")
      have "untouched i s (snd (capture ev fn ?s1))"
        by (rule capture_untouched_from [OF f sh untouched_print_line])
      then have u: "untouched i s s'" unfolding c by simp
      show ?thesis
      proof (cases r)
        case (Inr p)
        then show ?thesis using u win True None c by (simp add: capture_window_def)
      next
        case (Inl e)
        from window_except_untouched [OF f sh u] show ?thesis
          using Inl win True None c by (simp add: capture_window_def)
      qed
    next
      case (Some hwnd)
      show ?thesis
      proof (cases "print_window ev hwnd")
        case (Inl e)
        from window_except_untouched [OF f sh untouched_refl] show ?thesis
          using Inl win True Some by (simp add: capture_window_def)
      next
        case img: (Inr screenshot)
        show ?thesis
        proof (cases "generate_filename ev (self s) fn")
          case (Inl e)
          from window_except_untouched [OF f sh untouched_refl] show ?thesis
            using Inl win True Some img by (simp add: capture_window_def)
        next
          case gp: (Inr filepath)
          show ?thesis
          proof (cases "save ev screenshot filepath (upper (format (self s)))")
            case (Saved c)
            from untouched_write [OF f gp sh] show ?thesis
              using Saved win True Some img gp by (simp add: capture_window_def)
          next
            case (SaveRaised e left)
            from window_except_untouched [OF f sh untouched_left [OF f gp sh]] show ?thesis
              using SaveRaised win True Some img gp by (simp add: capture_window_def)
          qed
        qed
      qed
    qed
  qed
qed

lemma run_call_untouched:
  assumes "format (self s) \<in> set valid_formats"
    and "\<forall>q. capture_target (self s) q \<longrightarrow> realpath (call_env c) q \<noteq> i"
  shows "untouched i s (snd (run_call c s))"
proof (cases c)
  case (Capture ev fn)
  then show ?thesis using capture_untouched [of s ev i fn] assms by simp
next
  case (CaptureWindow ev t fn)
  then show ?thesis using capture_window_untouched [of s ev i t fn] assms by simp
qed

lemma run_calls_untouched:
  assumes "format (self s) \<in> set valid_formats"
    and "\<forall>c\<in>set cs. \<forall>q. capture_target (self s) q \<longrightarrow> realpath (call_env c) q \<noteq> i"
  shows "untouched i s (run_calls cs s)"
  using assms
proof (induction cs arbitrary: s)
  case Nil
  then show ?case by (simp add: untouched_refl)
next
  case (Cons c cs)
  let ?s1 = "snd (run_call c s)"
  have u: "untouched i s ?s1" using run_call_untouched [of s c i] Cons.prems by simp
  then have e: "self ?s1 = self s" by (simp add: untouched_def)
  have "untouched i ?s1 (run_calls cs ?s1)"
    using Cons.IH [of ?s1] Cons.prems unfolding e by simp
  with u show ?case by (simp add: untouched_trans)
qed

lemma example_targets_elsewhere:
  assumes "capture_target (self prefs_state) q"
  shows "realpath example_env q \<noteq> example_config_path"
    and "realpath failing_grab_env q \<noteq> example_config_path"
proof -
  have "path_parent q = \<lparr>drv = [], root = [], parts = [''test_screenshots'']\<rparr>"
    using assms by (simp add: capture_target_def prefs_state_def example_state_def example_snap_def)
  then have r: "root q = []" by (cases q) (simp add: path_parent_def)
  then have "example_realpath q = example_cwd\<lparr>parts := parts example_cwd @ parts q\<rparr>"
    by (simp add: example_realpath_def)
  then have n: "example_realpath q \<noteq> example_config_path"
    by (simp add: example_cwd_def example_config_path_def)
  show "realpath example_env q \<noteq> example_config_path" using n by (simp add: example_env_def)
  show "realpath failing_grab_env q \<noteq> example_config_path"
    using n by (simp add: failing_grab_env_def example_env_def)
qed

section \<open>Which file names are rejected\<close>

text \<open>
  Claim C1, as amended. For every non-empty file name, whatever the backend does,
  \<open>capture\<close> fails with the \<open>ValueError\<close> of the validation, before anything is
  grabbed or written, exactly when the name contains \<open>/\<close> or a backslash, is longer
  than 255 characters, or contains one of the reserved characters \<open>< > : " | ? *\<close>.
  Every other name passes the validation unchanged, the bare \<open>..\<close> included; the
  capture then returns the path built from it whenever the screen grab and the save to
  that path succeed.
\<close>

theorem capture_rejects_iff:
  assumes "filename \<noteq> []"
  shows "((\<exists>m. validate_filename (os_flavour ev) filename = Inl (Exn ValueError m)
              \<and> capture ev (Some filename) s = (Inl (Exn ValueError m), s))
            \<longleftrightarrow> (CHR ''/'' \<in> set filename \<or> bslash \<in> set filename \<or> length filename > 255
                 \<or> (\<exists>c\<in>set reserved_chars. c \<in> set filename)))
         \<and> (\<not> (CHR ''/'' \<in> set filename \<or> bslash \<in> set filename \<or> length filename > 255
                 \<or> (\<exists>c\<in>set reserved_chars. c \<in> set filename))
              \<longrightarrow> validate_filename (os_flavour ev) filename = Inr filename
                  \<and> (\<exists>p. generate_filename ev (self s) (Some filename) = Inr p
                        \<and> (\<forall>img c. grab ev = Inr img
                                  \<and> save ev img p (upper (format (self s))) = Saved c
                               \<longrightarrow> capture ev (Some filename) s
                                     = (Inr p, s\<lparr>files := (files s)(realpath ev p \<mapsto> c)\<rparr>))))"
proof -
  let ?bad = "CHR ''/'' \<in> set filename \<or> bslash \<in> set filename \<or> length filename > 255
                 \<or> (\<exists>c\<in>set reserved_chars. c \<in> set filename)"
  have bad: "?bad \<longleftrightarrow> (\<exists>m. validate_filename (os_flavour ev) filename = Inl (Exn ValueError m))"
    unfolding validate_filename_rejects [OF assms] invalid_chars_split by blast
  show ?thesis
  proof (cases ?bad)
    case True
    then obtain m where v: "validate_filename (os_flavour ev) filename = Inl (Exn ValueError m)"
      using bad by blast
    then have "generate_filename ev (self s) (Some filename) = Inl (Exn ValueError m)"
      using assms unfolding generate_filename_def by simp
    from capture_invalid [OF this] v True show ?thesis by blast
  next
    case False
    then have v: "validate_filename (os_flavour ev) filename = Inr filename"
      using bad validate_filename_cases [of "os_flavour ev" filename] by blast
    from generate_filename_total [OF v]
    obtain p where p: "generate_filename ev (self s) (Some filename) = Inr p" ..
    have "\<forall>img c. grab ev = Inr img \<and> save ev img p (upper (format (self s))) = Saved c
            \<longrightarrow> capture ev (Some filename) s
                  = (Inr p, s\<lparr>files := (files s)(realpath ev p \<mapsto> c)\<rparr>)"
      using capture_ok [OF p] by blast
    then show ?thesis using False v p by auto
  qed
qed

theorem capture_rejects_iff_witness:
  "''test:file.png'' \<noteq> []
   \<and> (\<exists>m. capture example_env (Some ''test:file.png'') example_state
            = (Inl (Exn ValueError m), example_state))
   \<and> ''valid_test.png'' \<noteq> []
   \<and> validate_filename (os_flavour example_env) ''valid_test.png'' = Inr ''valid_test.png''"
proof -
  have n: "''test:file.png'' \<noteq> []" and n': "''valid_test.png'' \<noteq> []" by simp_all
  have r: "\<exists>c\<in>set reserved_chars. c \<in> set ''test:file.png''"
    by (simp add: reserved_chars_def)
  have g: "\<not> (CHR ''/'' \<in> set ''valid_test.png'' \<or> bslash \<in> set ''valid_test.png''
               \<or> length ''valid_test.png'' > 255
               \<or> (\<exists>c\<in>set reserved_chars. c \<in> set ''valid_test.png''))"
    by (simp add: reserved_chars_def bslash_def dquote_def)
  show ?thesis
    using capture_rejects_iff [OF n, of example_env example_state] r
      capture_rejects_iff [OF n', of example_env example_state] g n n'
    by blast
qed

text \<open>
  Claim C1 as the specification words it fails on the name \<open>..\<close>: it is a \<open>..\<close>
  segment, so the specification rejects it, and \<open>capture\<close> accepts it and writes
  \<open>...png\<close>.
\<close>

theorem dotdot_name_accepted:
  "''..'' \<noteq> [] \<and> spec_rejects ''..''
   \<and> fst (capture example_env (Some ''..'') example_state)
       = Inr \<lparr>drv = [], root = [], parts = [''test_screenshots'', ''...png'']\<rparr>"
  by (simp add: spec_rejects_def has_dotdot_segment_def path_segments_def nt_norm_def
      capture_def generate_filename_def validate_filename_def example_env_def
      example_state_def example_snap_def tail_after_def invalid_chars_def bslash_def dquote_def
      endswith_def truediv_def posix_splitroot_def join_parsed_def upper_def upper_char_def
      is_lower_def pillow_save_def pillow_formats_def)

section \<open>Where the file is written\<close>

text \<open>
  Claim C2. For a capturer built by the constructor, every path that \<open>capture\<close> or
  \<open>capture_window\<close> returns lies directly in the output directory: its parent is the
  output directory, and its final component is a non-empty name without \<open>/\<close> or
  backslash (indeed without any of the invalid characters), equal to its own
  \<open>basename\<close>. This holds for a name the caller gave and for a generated one.
\<close>

theorem returned_path_inside_output_dir:
  assumes "format (self s) \<in> set valid_formats"
    and "fst (capture ev filename s) = Inr p
         \<or> fst (capture_window ev window_title filename s) = Inr p"
  shows "path_parent p = output_dir (self s)
         \<and> path_name p \<noteq> []
         \<and> CHR ''/'' \<notin> set (path_name p) \<and> bslash \<notin> set (path_name p)
         \<and> (\<forall>c\<in>set invalid_chars. c \<notin> set (path_name p))
         \<and> basename (os_flavour ev) (path_name p) = path_name p"
proof -
  have "generate_filename ev (self s) filename = Inr p"
    using assms(2) capture_Inr capture_window_Inr by blast
  from generate_filename_shape [OF assms(1) this] obtain nm where
    p: "p = (output_dir (self s))\<lparr>parts := parts (output_dir (self s)) @ [nm]\<rparr>"
    and c: "clean nm" and l: "2 \<le> length nm" by blast
  have n: "path_name p = nm" unfolding p by (rule name_parent_append(1))
  have "path_parent p = output_dir (self s)" unfolding p by (rule name_parent_append(2))
  moreover have "nm \<noteq> []" using l by auto
  moreover have "CHR ''/'' \<notin> set nm" "bslash \<notin> set nm"
    using plain_of_clean [of nm] c unfolding clean_def by blast+
  moreover have "\<forall>c\<in>set invalid_chars. c \<notin> set nm" using c unfolding clean_def .
  moreover have "basename (os_flavour ev) nm = nm" using c by (rule clean_basename)
  ultimately show ?thesis unfolding n by blast
qed

theorem returned_path_inside_output_dir_witness:
  "format (self example_state) \<in> set valid_formats
   \<and> fst (capture example_env (Some ''basic_v02.png'') example_state)
       = Inr \<lparr>drv = [], root = [], parts = [''test_screenshots'', ''basic_v02.png'']\<rparr>
   \<and> path_parent \<lparr>drv = [], root = [], parts = [''test_screenshots'', ''basic_v02.png'']\<rparr>
       = output_dir (self example_state)
   \<and> CHR ''/'' \<notin> set (path_name \<lparr>drv = [], root = [], parts = [''test_screenshots'', ''basic_v02.png'']\<rparr>)"
  using returned_path_inside_output_dir [OF example_formats(1) disjI1 [OF example_capture]]
    example_formats(1) example_capture by blast

section \<open>The extension\<close>

text \<open>
  Claim C3 does not hold of the code. The name is built as the claim says: \<open>shot\<close>
  with the format \<open>jpg\<close> becomes \<open>shot.jpg\<close> in the output directory. But \<open>capture\<close>
  then asks Pillow to save in the format \<open>JPG\<close>, the upper-cased format, which
  Pillow does not know (its name for it is \<open>JPEG\<close>): the save raises, and the capture
  fails with a \<open>RuntimeError\<close> instead of returning the path.
\<close>

theorem jpg_capture_fails:
  "generate_filename example_env (self example_state_jpg) (Some ''shot'')
     = Inr \<lparr>drv = [], root = [], parts = [''test_screenshots'', ''shot.jpg'']\<rparr>
   \<and> capture example_env (Some ''shot'') example_state_jpg
       = (Inl (Exn RuntimeError
            (''Failed to capture screenshot: '' @ [squote] @ ''JPG'' @ [squote])),
          example_state_jpg)"
  by (simp add: capture_def generate_filename_def validate_filename_def example_env_def
      example_state_def example_snap_def tail_after_def invalid_chars_def bslash_def dquote_def
      endswith_def truediv_def posix_splitroot_def join_parsed_def upper_def upper_char_def
      is_lower_def pillow_save_def pillow_formats_def
      example_state_jpg_def capture_except_def issubclass_def)



section \<open>Generated names\<close>

text \<open>
  Claim C4 does not hold of the code. Without a file name the generated name is
  \<open>screenshot_\<close>, the time stamp, a dot and the format, and with the format \<open>png\<close>
  the capture returns it. With the format \<open>jpg\<close> the capture fails although the
  directory is writable and the backend works: Pillow is asked for the format \<open>JPG\<close>,
  which it does not know.
\<close>

theorem auto_named_jpg_capture_fails:
  "generate_filename example_env (self example_state_jpg) (Some [])
     = Inr \<lparr>drv = [], root = [],
            parts = [''test_screenshots'', ''screenshot_20260118_090507.jpg'']\<rparr>
   \<and> capture example_env (Some []) example_state_jpg
       = (Inl (Exn RuntimeError
            (''Failed to capture screenshot: '' @ [squote] @ ''JPG'' @ [squote])),
          example_state_jpg)
   \<and> fst (capture example_env (Some []) example_state)
       = Inr \<lparr>drv = [], root = [],
              parts = [''test_screenshots'', ''screenshot_20260118_090507.png'']\<rparr>"
  by (simp add: capture_def generate_filename_def validate_filename_def example_env_def
      example_state_def example_snap_def tail_after_def invalid_chars_def bslash_def dquote_def
      endswith_def truediv_def posix_splitroot_def join_parsed_def upper_def upper_char_def
      is_lower_def pillow_save_def pillow_formats_def
      example_state_jpg_def capture_except_def issubclass_def strftime_def example_time_def
      zero_pad_def decimal.simps digit_char_def)

section \<open>The fallback of \<open>capture_window\<close>\<close>

text \<open>
  Claim C5. When the platform is not Windows, or pywin32 is missing, \<open>capture_window\<close>
  with any window title and any file name returns exactly what \<open>capture\<close> returns for
  that file name (the same path or the same exception) and leaves the same files; the
  only difference is one warning line printed before the capture.
\<close>

theorem capture_window_falls_back:
  assumes "system (self s) \<noteq> ''Windows'' \<or> \<not> pywin32_installed ev"
  shows "fst (capture_window ev window_title filename s) = fst (capture ev filename s)
         \<and> self (snd (capture_window ev window_title filename s)) = self (snd (capture ev filename s))
         \<and> files (snd (capture_window ev window_title filename s)) = files (snd (capture ev filename s))
         \<and> (\<exists>w. startswith w ''Warning: ''
               \<and> stdout (snd (capture_window ev window_title filename s))
                   = stdout (snd (capture ev filename s)) @ [w])"
proof -
  from capture_window_fallback [OF assms] obtain w where
    w: "startswith w ''Warning: ''"
    and c: "capture_window ev window_title filename s = capture ev filename (print_line w s)"
    by blast
  have "capture_window ev window_title filename s
          = (fst (capture ev filename s), print_line w (snd (capture ev filename s)))"
    unfolding c by (rule capture_print_line)
  then show ?thesis using w by (auto simp: print_line_simps)
qed

theorem capture_window_falls_back_witness:
  "system (self example_state) \<noteq> ''Windows''
   \<and> fst (capture_window example_env [] (Some ''shot.png'') example_state)
       = fst (capture example_env (Some ''shot.png'') example_state)
   \<and> system (self windows_state) = ''Windows'' \<and> \<not> pywin32_installed windows_env
   \<and> fst (capture_window windows_env ''Chrome'' None windows_state)
       = fst (capture windows_env None windows_state)"
proof -
  have a: "system (self example_state) \<noteq> ''Windows''"
    by (simp add: example_state_def example_snap_def)
  have b: "\<not> pywin32_installed windows_env"
    by (simp add: windows_env_def example_env_def)
  have c: "system (self windows_state) = ''Windows''"
    by (simp add: windows_state_def)
  show ?thesis
    using capture_window_falls_back [where s = example_state and ev = example_env
        and window_title = "[]" and filename = "Some ''shot.png''", OF disjI1 [OF a]]
      capture_window_falls_back [where s = windows_state and ev = windows_env
        and window_title = "''Chrome''" and filename = None, OF disjI2 [OF b]] a b c
    by blast
qed

section \<open>The format\<close>

text \<open>
  Claim C6, as amended. The format check fails exactly for the formats that are not,
  letter case aside, one of \<open>png\<close>, \<open>jpg\<close>, \<open>jpeg\<close>. When the preferences have
  been loaded and the output directory resolved, the constructor fails for such a format
  with a \<open>ValueError\<close> whose message lists the three accepted names; for an accepted
  format its outcome is that of creating the directory and importing Pillow, which can
  fail with errors of their own, and the capturer it returns holds the format in lower
  case. A capture never checks the format: whatever the format field holds, a capture
  without a file name builds its path and returns it when the screen grab and the save
  to that path succeed.
\<close>

theorem format_checked_at_construction:
  assumes "ScreenSnapConfig_init ev fs cfg_path = Inr cm"
    and "resolve_output_dir ev cm out_dir = Inr od"
  shows "((\<exists>e. check_format fmt = Inl e) \<longleftrightarrow> \<not> spec_accepts_format fmt)
         \<and> (\<not> spec_accepts_format fmt \<longrightarrow>
               ScreenSnap_init ev fs out_dir fmt cfg_path
                 = Inl (Exn ValueError
                     (''Invalid format '' @ [squote] @ fmt @ [squote]
                      @ ''. Must be one of: png, jpg, jpeg'')))
         \<and> (spec_accepts_format fmt \<longrightarrow>
               lower fmt \<in> set valid_formats
               \<and> ScreenSnap_init ev fs out_dir fmt cfg_path
                   = (case mkdir_error ev od of
                        Some e \<Rightarrow> Inl e
                      | None \<Rightarrow>
                          if pillow_installed ev
                          then Inr \<lparr>config_manager = cm, output_dir = od,
                                    format = lower fmt, system = platform_system ev\<rparr>
                          else Inl (Exn ImportError
                                 ''Pillow is required for ScreenSnap. Install it with: pip install pillow'')))
         \<and> (\<exists>p. generate_filename ev' (self s) None = Inr p
               \<and> (\<forall>img c. grab ev' = Inr img
                         \<and> save ev' img p (upper (format (self s))) = Saved c
                      \<longrightarrow> fst (capture ev' None s) = Inr p))"
proof (intro conjI impI)
  show "(\<exists>e. check_format fmt = Inl e) \<longleftrightarrow> \<not> spec_accepts_format fmt"
    using check_format_rejects [of fmt] check_format_accepts [of fmt] by auto
next
  assume "\<not> spec_accepts_format fmt"
  from check_format_rejects [OF this] show "ScreenSnap_init ev fs out_dir fmt cfg_path
       = Inl (Exn ValueError (''Invalid format '' @ [squote] @ fmt @ [squote]
                      @ ''. Must be one of: png, jpg, jpeg''))"
    unfolding ScreenSnap_init_def using assms by simp
next
  assume a: "spec_accepts_format fmt"
  then show "lower fmt \<in> set valid_formats" by (simp add: lower_in_valid_formats)
  from check_format_accepts [OF a] show "ScreenSnap_init ev fs out_dir fmt cfg_path
       = (case mkdir_error ev od of
            Some e \<Rightarrow> Inl e
          | None \<Rightarrow>
              if pillow_installed ev
              then Inr \<lparr>config_manager = cm, output_dir = od,
                        format = lower fmt, system = platform_system ev\<rparr>
              else Inl (Exn ImportError
                     ''Pillow is required for ScreenSnap. Install it with: pip install pillow''))"
    unfolding ScreenSnap_init_def using assms by simp
next
  obtain p where p: "generate_filename ev' (self s) None = Inr p"
    unfolding generate_filename_def by simp
  have "\<forall>img c. grab ev' = Inr img \<and> save ev' img p (upper (format (self s))) = Saved c
          \<longrightarrow> fst (capture ev' None s) = Inr p"
    using capture_ok [OF p] by auto
  then show "\<exists>p. generate_filename ev' (self s) None = Inr p
               \<and> (\<forall>img c. grab ev' = Inr img
                         \<and> save ev' img p (upper (format (self s))) = Saved c
                      \<longrightarrow> fst (capture ev' None s) = Inr p)"
    using p by blast
qed

theorem format_checked_at_construction_witness:
  "ScreenSnap_init example_env Map.empty (Some ''test_screenshots'') ''invalid'' None
     = Inl (Exn ValueError
         (''Invalid format '' @ [squote] @ ''invalid'' @ [squote]
          @ ''. Must be one of: png, jpg, jpeg''))
   \<and> ScreenSnap_init example_env Map.empty (Some ''test_screenshots'') ''PNG'' None
     = Inr example_snap"
proof -
  have l: "lower ''PNG'' = ''png''" by (simp add: lower_def lower_char_def is_upper_def)
  have m: "mkdir_error example_env \<lparr>drv = [], root = [], parts = [''test_screenshots'']\<rparr> = None"
    "pillow_installed example_env" "platform_system example_env = ''Linux''"
    by (simp_all add: example_env_def posix_mkdir_error_def)
  show ?thesis
    using format_checked_at_construction [OF example_config_loaded example_output_dir,
        of "''invalid''" example_env example_state]
      format_checked_at_construction [OF example_config_loaded example_output_dir,
        of "''PNG''" example_env example_state]
      example_accepts l m
    by (simp add: example_snap_def)
qed

text \<open>
  Claim C6 as the specification words it fails in both directions. A format that is
  not accepted does not always end in the error of the format check: with a preferences
  file holding \<open>{}\<close> and no output directory, the constructor fails earlier with a
  \<open>KeyError\<close>. And an accepted format can still end in a \<open>ValueError\<close>: for an
  output directory whose name holds a null character, creating the directory raises one.
\<close>

theorem construction_fails_beside_format_check:
  "\<not> spec_accepts_format ''invalid''
   \<and> ScreenSnap_init example_env empty_object_files None ''invalid'' None
       = Inl (Exn KeyError ([squote] @ ''output_dir'' @ [squote]))
   \<and> spec_accepts_format ''png''
   \<and> ScreenSnap_init example_env Map.empty (Some nul_dir) ''png'' None
       = Inl (Exn ValueError ''embedded null byte'')"
  by (simp add: spec_accepts_format_def valid_formats_def ci_equal_def ci_char_eq_def
      ascii_upper_def ScreenSnap_init_def ScreenSnapConfig_init_def load_config_def
      open_and_load_def DEFAULT_CONFIG_PATH_def resolve_output_dir_def empty_object_files_def
      example_env_def example_config_path_def example_realpath_def
      truediv_def posix_splitroot_def join_parsed_def
      nul_dir_def posix_mkdir_error_def check_format_def lower_def lower_char_def is_upper_def)

section \<open>Errors of the backend\<close>

text \<open>
  Claim C7 does not hold of the code. A \<open>ValueError\<close> raised while grabbing the screen
  or while writing the file is caught by the clause meant for validation errors and
  reaches the caller as a \<open>ValueError\<close>, not wrapped in a \<open>RuntimeError\<close>: so for a
  screen grab that raises \<open>ValueError\<close>, and for the name \<open>shot\<close> followed by a null
  character, which validation accepts and \<open>open\<close> refuses.
\<close>

theorem backend_ValueError_not_wrapped:
  "capture failing_grab_env (Some ''shot.png'') example_state
     = (Inl (Exn ValueError ''bad display size''), example_state)
   \<and> validate_filename (os_flavour strict_open_env) nul_name = Inr nul_name
   \<and> capture strict_open_env (Some nul_name) example_state
       = (Inl (Exn ValueError ''embedded null byte''), example_state)"
  by (simp add: capture_def generate_filename_def validate_filename_def failing_grab_env_def
      strict_open_env_def nul_name_def
      example_env_def example_state_def example_snap_def tail_after_def invalid_chars_def
      bslash_def dquote_def endswith_def truediv_def posix_splitroot_def join_parsed_def
      capture_except_def issubclass_def path_name_def upper_def)

section \<open>The preferences\<close>

text \<open>
  Claim C8 does not hold of the code. A preferences file holding the JSON document
  \<open>{}\<close> is loaded as it is, and the constructor called without an output directory
  fails with a \<open>KeyError\<close>; a preferences file that is not text in the machine's
  encoding makes the constructor fail with a \<open>UnicodeDecodeError\<close>.
\<close>

theorem malformed_preferences_are_fatal:
  "load_config example_env empty_object_files example_config_path = Inr (JObj [])
   \<and> ScreenSnap_init example_env empty_object_files None ''png'' None
       = Inl (Exn KeyError ([squote] @ ''output_dir'' @ [squote]))
   \<and> ScreenSnap_init example_env undecodable_files (Some ''test_screenshots'') ''png'' None
       = Inl (Exn UnicodeDecodeError ''invalid start byte'')"
  by (simp add: ScreenSnap_init_def ScreenSnapConfig_init_def load_config_def
      open_and_load_def DEFAULT_CONFIG_PATH_def resolve_output_dir_def empty_object_files_def
      undecodable_files_def issubclass_def example_realpath_def
      example_env_def example_config_path_def truediv_def posix_splitroot_def join_parsed_def)

text \<open>
  Claim C9, as amended. Whatever sequence of \<open>capture\<close> and \<open>capture_window\<close> calls
  runs on a capturer built by the constructor, the capturer object and with it the
  loaded preferences stay as they are, and a file keeps its content unless, in the
  environment of one of the calls, a capture target of this capturer resolves to that
  file. So the preferences file is unchanged unless its path and a capture target are
  names of one file. \<open>save\<close> writes the loaded preferences to the preferences file.
\<close>

theorem captures_leave_preferences:
  assumes "format (self s) \<in> set valid_formats"
    and "\<forall>c\<in>set cs. \<forall>q. capture_target (self s) q \<longrightarrow> realpath (call_env c) q \<noteq> i"
  shows "self (run_calls cs s) = self s
         \<and> config_manager (self (run_calls cs s)) = config_manager (self s)
         \<and> files (run_calls cs s) i = files s i
         \<and> (open_w_error ev (config_path (config_manager (self s))) = None \<longrightarrow>
               snd (save_config ev (config_manager (self s)) (files s))
                   (realpath ev (config_path (config_manager (self s))))
                 = Some (JsonText (config (config_manager (self s)))))"
proof -
  have u: "untouched i s (run_calls cs s)" by (rule run_calls_untouched [OF assms])
  have c: "open_w_error ev (config_path (config_manager (self s))) = None \<Longrightarrow>
             snd (save_config ev (config_manager (self s)) (files s))
                 (realpath ev (config_path (config_manager (self s))))
               = Some (JsonText (config (config_manager (self s))))"
    by (simp add: save_config_def)
  show ?thesis using u c by (simp add: untouched_def)
qed

theorem captures_leave_preferences_witness:
  "format (self prefs_state) \<in> set valid_formats
   \<and> realpath example_env (config_path (config_manager (self prefs_state))) = example_config_path
   \<and> files prefs_state example_config_path = Some (JsonText default_config)
   \<and> config_manager (self (run_calls example_calls prefs_state))
       = config_manager (self prefs_state)
   \<and> files (run_calls example_calls prefs_state) example_config_path
       = Some (JsonText default_config)"
proof -
  have f: "format (self prefs_state) \<in> set valid_formats"
    by (simp add: prefs_state_def example_state_def example_snap_def valid_formats_def)
  have r: "realpath example_env (config_path (config_manager (self prefs_state)))
             = example_config_path"
    by (simp add: prefs_state_def example_state_def example_snap_def example_env_def
        example_realpath_def example_config_path_def)
  have p: "files prefs_state example_config_path = Some (JsonText default_config)"
    by (simp add: prefs_state_def)
  have sh: "\<forall>c\<in>set example_calls. \<forall>q. capture_target (self prefs_state) q
              \<longrightarrow> realpath (call_env c) q \<noteq> example_config_path"
    using example_targets_elsewhere by (simp add: example_calls_def)
  show ?thesis
    using captures_leave_preferences [OF f sh, of example_env] f r p by simp
qed

text \<open>
  Claim C9 as the specification words it fails when the preferences file is itself a
  capture target: with the preferences at \<open>prefs.png\<close> in the output directory, the
  capture named \<open>prefs.png\<close> replaces the preferences by the image, although the
  preferences path is spelled differently from the path the capture returns.
\<close>

theorem capture_overwrites_aliased_preferences:
  "config_path (config_manager (self aliased_state)) = aliased_config_path
   \<and> files aliased_state (realpath example_env aliased_config_path)
       = Some (JsonText default_config)
   \<and> fst (run_call (Capture example_env (Some ''prefs.png'')) aliased_state)
       = Inr \<lparr>drv = [], root = [], parts = [''test_screenshots'', ''prefs.png'']\<rparr>
   \<and> files (run_calls [Capture example_env (Some ''prefs.png'')] aliased_state)
         (realpath example_env aliased_config_path) = Some (Undecodable ''pixels'')"
  by (simp add: capture_def generate_filename_def validate_filename_def example_env_def
      aliased_state_def aliased_config_path_def example_snap_def tail_after_def
      invalid_chars_def bslash_def dquote_def endswith_def truediv_def posix_splitroot_def
      join_parsed_def upper_def upper_char_def is_lower_def pillow_save_def pillow_formats_def
      example_realpath_def example_cwd_def)

end
